theory Spec2Isabelle
  imports Main "HOL-Library.Word"
begin

section \<open>The document-search extension: data model\<close>

text \<open>
  The embedding follows \<^verbatim>\<open>packages/documentsearch-extension/src/index.ts\<close>. Interfaces
  become records, objects with identity (search instances) live in a store addressed by
  references, the plain object used as the active-search directory becomes a map of own
  properties together with the property names every object literal inherits, and every
  effect of a command is appended to a trace that is part of the state.
\<close>

subsection \<open>ISearchMatch\<close>

text \<open>
  A JavaScript \<^verbatim>\<open>number\<close> is an IEEE 754 double; it is represented by its 64-bit pattern.
  index.ts does no arithmetic on the numbers of a match. The interface declares \<^verbatim>\<open>text\<close>
  and \<^verbatim>\<open>fragment\<close> with the \<^verbatim>\<open>readonly\<close> modifier and \<^verbatim>\<open>line\<close>, \<^verbatim>\<open>column\<close>,
  \<^verbatim>\<open>index\<close> without it; the modifier is a compile-time annotation only.
\<close>

type_synonym number = "64 word"

record ISearchMatch =
  match_text :: string
  match_fragment :: string
  match_line :: number
  match_column :: number
  match_index :: number

subsection \<open>Widgets, providers, display state\<close>

text \<open>
  Of a widget the commands use its \<^verbatim>\<open>id\<close> (a string) and its \<^verbatim>\<open>node\<close>; the node is
  an opaque DOM element, named here by a number.
\<close>

record Widget =
  widget_id :: string
  node :: nat

record ISearchProvider =
  providerClass :: string
  matches :: "ISearchMatch list"
  currentMatchIndex :: "nat option"

text \<open>
  \<^verbatim>\<open>ISearchProviderConstructor\<close>: a class with a zero-argument constructor and the static
  predicate \<^verbatim>\<open>canSearchOn\<close>. The class is named by \<open>className\<close>.
\<close>

record ISearchProviderConstructor =
  className :: string
  canSearchOn :: "Widget \<Rightarrow> bool"

record RegExp =
  source :: string
  ignoreCase :: bool

record IDisplayState =
  currentIndex :: "nat option"
  totalMatches :: nat
  caseSensitive :: bool
  useRegex :: bool
  inputText :: string
  query :: "RegExp option"
  errorMessage :: string
  forceFocus :: bool

subsection \<open>Search instances and the program state\<close>

text \<open>
  A slot connected to the \<^verbatim>\<open>disposed\<close> signal of an overlay widget. The only slot
  index.ts connects is the closure \<^verbatim>\<open>() => { delete activeSearches[widgetId]; }\<close>, which
  captures the widget id.
\<close>

datatype slot = DeleteActiveSearch string

record SearchInstance =
  widget :: Widget
  provider :: ISearchProvider
  displayState :: IDisplayState
  searchWidget_isDisposed :: bool
  searchWidget_slots :: "slot list"
  searchWidget_host :: "nat option"

datatype nav = Next | Previous

datatype error = TypeError

datatype outcome = Returned | Raised error

datatype effect =
    ReadDirectory string
  | WroteDirectory string nat
  | DeletedDirectory string
  | CalledFocusInput nat
  | CalledGetProviderForWidget Widget "string option"
  | ConstructedInstance nat
  | ConnectedDisposed nat string
  | AttachedOverlay nat nat
  | CalledHighlight nav nat nat
  | Settled nat
  | Rejected nat
  | CalledUpdateIndices nat
  | DisposedOverlay nat
  | AsyncRejected error

text \<open>
  The state: the directory \<^verbatim>\<open>activeSearches\<close> (own properties only), the store of search
  instances, the provider operations that have been started and not yet settled (each
  with the instance whose command awaits it), the counters that name fresh instances and
  promises, and the trace of effects so far.
\<close>

record state =
  activeSearches :: "string \<rightharpoonup> nat"
  heap :: "nat \<rightharpoonup> SearchInstance"
  nextRef :: nat
  pendingOps :: "nat \<rightharpoonup> nat \<times> nav"
  nextPromise :: nat
  trace :: "effect list"

definition initial_state :: state where
  "initial_state = \<lparr>activeSearches = Map.empty, heap = Map.empty, nextRef = 0,
     pendingOps = Map.empty, nextPromise = 0, trace = []\<rparr>"

definition emit :: "effect \<Rightarrow> state \<Rightarrow> state" where
  "emit e s = s\<lparr>trace := trace s @ [e]\<rparr>"

definition modify_instance :: "nat \<Rightarrow> (SearchInstance \<Rightarrow> SearchInstance) \<Rightarrow> state \<Rightarrow> state" where
  "modify_instance r f s =
     (case heap s r of None \<Rightarrow> s | Some i \<Rightarrow> s\<lparr>heap := (heap s)(r \<mapsto> f i)\<rparr>)"

subsection \<open>Property lookup and assignment on the directory object\<close>

text \<open>
  \<^verbatim>\<open>activeSearches\<close> is created by the object literal \<^verbatim>\<open>{}\<close>, so
  \<^verbatim>\<open>activeSearches[key]\<close> finds an own property first and otherwise a property inherited
  from \<^verbatim>\<open>Object.prototype\<close>; only when neither exists is the result \<^verbatim>\<open>undefined\<close>. Every
  inherited member is a truthy value that is not a search instance.
\<close>

definition Object_prototype_keys :: "string list" where
  "Object_prototype_keys =
     [''constructor'', ''hasOwnProperty'', ''isPrototypeOf'', ''propertyIsEnumerable'',
      ''toLocaleString'', ''toString'', ''valueOf'', ''__proto__'',
      ''__defineGetter__'', ''__defineSetter__'', ''__lookupGetter__'', ''__lookupSetter__'']"

datatype js_object = InstanceRef nat | InheritedMember

definition get_property :: "(string \<rightharpoonup> nat) \<Rightarrow> string \<Rightarrow> js_object option" where
  "get_property m k =
     (case m k of
        Some r \<Rightarrow> Some (InstanceRef r)
      | None \<Rightarrow> if k \<in> set Object_prototype_keys then Some InheritedMember else None)"

text \<open>
  The assignment \<^verbatim>\<open>activeSearches[key] = instance\<close> defines the own property \<open>key\<close> or
  overwrites it; nothing is checked and nothing is reported. The one exception is the key
  \<^verbatim>\<open>__proto__\<close>, whose assignment goes to the inherited setter and defines no own
  property. \<^verbatim>\<open>delete activeSearches[key]\<close> removes the own property if there is one.
\<close>

definition set_property :: "(string \<rightharpoonup> nat) \<Rightarrow> string \<Rightarrow> nat \<Rightarrow> (string \<rightharpoonup> nat)" where
  "set_property m k r = (if k = ''__proto__'' then m else m(k \<mapsto> r))"

definition delete_property :: "(string \<rightharpoonup> nat) \<Rightarrow> string \<Rightarrow> (string \<rightharpoonup> nat)" where
  "delete_property m k = m(k := None)"

section \<open>Code of the repository that index.ts calls\<close>

subsection \<open>SearchProviderRegistry\<close>

text \<open>
  Modelled from the spec: \<^verbatim>\<open>searchproviderregistry.ts\<close> is not among the sources.
  The registry holds the provider constructors in registration order;
  \<^verbatim>\<open>getProviderForWidget\<close> iterates them in that order and returns a newly constructed
  provider for the first constructor whose \<^verbatim>\<open>canSearchOn\<close> holds of the document, and
  nothing if none does. A newly constructed provider has run no query: it has no
  matches and no current match.
\<close>

type_synonym SearchProviderRegistry = "ISearchProviderConstructor list"

definition new_provider :: "ISearchProviderConstructor \<Rightarrow> ISearchProvider" where
  "new_provider c = \<lparr>providerClass = className c, matches = [], currentMatchIndex = None\<rparr>"

fun getProviderForWidget :: "SearchProviderRegistry \<Rightarrow> Widget \<Rightarrow> ISearchProvider option" where
  "getProviderForWidget [] w = None"
| "getProviderForWidget (c # cs) w =
     (if canSearchOn c w then Some (new_provider c) else getProviderForWidget cs w)"

subsection \<open>SearchInstance\<close>

text \<open>
  Modelled from the spec: \<^verbatim>\<open>searchinstance.ts\<close> is not among the sources. A new
  instance is bound to one document and one provider, has run no query, and owns an
  overlay widget that is neither attached nor disposed. \<^verbatim>\<open>focusInput\<close> sets the
  force-focus flag of the display state. \<^verbatim>\<open>updateIndices\<close> resynchronises the display
  state from the provider: the total is the length of its match sequence and the current
  index is its current match index.
\<close>

definition initial_displayState :: IDisplayState where
  "initial_displayState = \<lparr>currentIndex = None, totalMatches = 0, caseSensitive = False,
     useRegex = False, inputText = [], query = None, errorMessage = [], forceFocus = False\<rparr>"

definition new_SearchInstance :: "Widget \<Rightarrow> ISearchProvider \<Rightarrow> SearchInstance" where
  "new_SearchInstance w p = \<lparr>widget = w, provider = p, displayState = initial_displayState,
     searchWidget_isDisposed = False, searchWidget_slots = [], searchWidget_host = None\<rparr>"

definition focusInput :: "nat \<Rightarrow> state \<Rightarrow> state" where
  "focusInput r s =
     emit (CalledFocusInput r)
       (modify_instance r (\<lambda>i. i\<lparr>displayState := (displayState i)\<lparr>forceFocus := True\<rparr>\<rparr>) s)"

definition updateIndices :: "nat \<Rightarrow> state \<Rightarrow> state" where
  "updateIndices r s =
     emit (CalledUpdateIndices r)
       (modify_instance r
          (\<lambda>i. i\<lparr>displayState := (displayState i)
                  \<lparr>totalMatches := length (matches (provider i)),
                   currentIndex := currentMatchIndex (provider i)\<rparr>\<rparr>) s)"

subsection \<open>Search providers\<close>

text \<open>
  Modelled from the spec: the provider implementations are not among the sources.
  \<^verbatim>\<open>highlightNext\<close> and \<^verbatim>\<open>highlightPrevious\<close> move the current-match cursor circularly
  through the match sequence, wrapping from the last match to the first and back; with
  no matches there is no current match. From no current match, next selects the first
  match and previous the last. The match sequence itself is left as it is.
\<close>

definition highlightNext :: "ISearchProvider \<Rightarrow> ISearchProvider" where
  "highlightNext p =
     (if matches p = [] then p\<lparr>currentMatchIndex := None\<rparr>
      else p\<lparr>currentMatchIndex :=
               Some (case currentMatchIndex p of
                       None \<Rightarrow> 0
                     | Some i \<Rightarrow> (i + 1) mod length (matches p))\<rparr>)"

definition highlightPrevious :: "ISearchProvider \<Rightarrow> ISearchProvider" where
  "highlightPrevious p =
     (if matches p = [] then p\<lparr>currentMatchIndex := None\<rparr>
      else p\<lparr>currentMatchIndex :=
               Some (case currentMatchIndex p of
                       None \<Rightarrow> length (matches p) - 1
                     | Some i \<Rightarrow> (i + length (matches p) - 1) mod length (matches p))\<rparr>)"

fun provider_operation :: "nav \<Rightarrow> ISearchProvider \<Rightarrow> ISearchProvider" where
  "provider_operation Next = highlightNext"
| "provider_operation Previous = highlightPrevious"

subsection \<open>Asynchronous provider operations and the widget library\<close>

text \<open>
  A call of \<^verbatim>\<open>instance.provider.highlightNext()\<close> (or \<^verbatim>\<open>highlightPrevious\<close>) returns a
  promise. The call is recorded as a pending operation under a fresh promise number,
  together with the instance whose command awaits it; nothing else changes until the
  promise settles.
\<close>

definition call_highlight :: "nav \<Rightarrow> nat \<Rightarrow> state \<Rightarrow> state" where
  "call_highlight op r s =
     (let p = nextPromise s
      in emit (CalledHighlight op r p)
           (s\<lparr>pendingOps := (pendingOps s)(p \<mapsto> (r, op)), nextPromise := Suc p\<rparr>))"

text \<open>
  The widget library: \<^verbatim>\<open>Widget.dispose\<close> does nothing on a widget that is already
  disposed; otherwise it marks the widget disposed and emits \<^verbatim>\<open>disposed\<close>, which runs
  the connected slots in connection order.
\<close>

fun run_slot :: "slot \<Rightarrow> state \<Rightarrow> state" where
  "run_slot (DeleteActiveSearch widgetId) s =
     emit (DeletedDirectory widgetId)
       (s\<lparr>activeSearches := delete_property (activeSearches s) widgetId\<rparr>)"

definition dispose_searchWidget :: "nat \<Rightarrow> state \<Rightarrow> state" where
  "dispose_searchWidget r s =
     (case heap s r of
        None \<Rightarrow> s
      | Some i \<Rightarrow>
          if searchWidget_isDisposed i then s
          else fold run_slot (searchWidget_slots i)
                 (emit (DisposedOverlay r)
                    (modify_instance r (\<lambda>j. j\<lparr>searchWidget_isDisposed := True\<rparr>) s)))"

section \<open>index.ts: namespace Private\<close>

text \<open>
  \<^verbatim>\<open>onStartCommand\<close>. The directory is read at \<^verbatim>\<open>if (activeSearches[widgetId])\<close>; a
  truthy value is read once more and its \<^verbatim>\<open>focusInput\<close> is called, which is a
  \<^verbatim>\<open>TypeError\<close> when the value is an inherited member and not a search instance.
  Otherwise the registry is asked for a provider; without one the command returns, with
  one it constructs the instance, stores it under the widget id, connects the slot that
  deletes the entry to the overlay's \<^verbatim>\<open>disposed\<close> signal, attaches the overlay to the
  document's node and focuses the input. The shell's current widget is attached to the
  page and the new overlay is not, so \<^verbatim>\<open>Widget.attach\<close> goes through.
\<close>

definition onStartCommand :: "Widget \<Rightarrow> SearchProviderRegistry \<Rightarrow> state \<Rightarrow> outcome \<times> state" where
  "onStartCommand currentWidget registry s =
     (let widgetId = widget_id currentWidget;
          s1 = emit (ReadDirectory widgetId) s
      in case get_property (activeSearches s) widgetId of
           Some (InstanceRef r) \<Rightarrow> (Returned, focusInput r (emit (ReadDirectory widgetId) s1))
         | Some InheritedMember \<Rightarrow> (Raised TypeError, emit (ReadDirectory widgetId) s1)
         | None \<Rightarrow>
             (let searchProvider = getProviderForWidget registry currentWidget;
                  s2 = emit (CalledGetProviderForWidget currentWidget
                              (map_option providerClass searchProvider)) s1
              in case searchProvider of
                   None \<Rightarrow> (Returned, s2)
                 | Some p \<Rightarrow>
                     (let r = nextRef s2;
                          s3 = emit (ConstructedInstance r)
                                 (s2\<lparr>heap := (heap s2)(r \<mapsto> new_SearchInstance currentWidget p),
                                     nextRef := Suc r\<rparr>);
                          s4 = emit (WroteDirectory widgetId r)
                                 (s3\<lparr>activeSearches := set_property (activeSearches s3) widgetId r\<rparr>);
                          s5 = emit (ConnectedDisposed r widgetId)
                                 (modify_instance r
                                    (\<lambda>i. i\<lparr>searchWidget_slots :=
                                             searchWidget_slots i @ [DeleteActiveSearch widgetId]\<rparr>) s4);
                          s6 = emit (AttachedOverlay r (node currentWidget))
                                 (modify_instance r
                                    (\<lambda>i. i\<lparr>searchWidget_host := Some (node currentWidget)\<rparr>) s5)
                      in (Returned, focusInput r s6))))"

text \<open>
  \<^verbatim>\<open>onNextCommand\<close> and \<^verbatim>\<open>onPrevCommand\<close> are \<^verbatim>\<open>async\<close>: the call runs up to the
  \<^verbatim>\<open>await\<close>, that is, it starts the provider operation and suspends; the rest of the
  body, \<^verbatim>\<open>instance.updateIndices()\<close>, runs when the promise resolves (see
  \<open>resolve_promise\<close>). Applied to a value that is not a search instance, reading
  \<^verbatim>\<open>instance.provider.highlightNext\<close> throws inside the async function, whose promise is
  rejected; the caller does not look at that promise.
\<close>

definition onNextCommand :: "js_object \<Rightarrow> state \<Rightarrow> state" where
  "onNextCommand instance s =
     (case instance of
        InstanceRef r \<Rightarrow> call_highlight Next r s
      | InheritedMember \<Rightarrow> emit (AsyncRejected TypeError) s)"

definition onPrevCommand :: "js_object \<Rightarrow> state \<Rightarrow> state" where
  "onPrevCommand instance s =
     (case instance of
        InstanceRef r \<Rightarrow> call_highlight Previous r s
      | InheritedMember \<Rightarrow> emit (AsyncRejected TypeError) s)"

text \<open>
  The continuation of the two async commands. When the promise of a pending provider
  operation resolves, the operation has completed on the provider of its instance, and the
  awaiting command goes on with \<^verbatim>\<open>instance.updateIndices()\<close>. When it is rejected, the
  command's own promise is rejected and \<^verbatim>\<open>updateIndices\<close> is not called.
\<close>

definition resolve_promise :: "nat \<Rightarrow> state \<Rightarrow> state" where
  "resolve_promise p s =
     (case pendingOps s p of
        None \<Rightarrow> s
      | Some (r, op) \<Rightarrow>
          updateIndices r
            (emit (Settled p)
               (modify_instance r (\<lambda>i. i\<lparr>provider := provider_operation op (provider i)\<rparr>)
                  (s\<lparr>pendingOps := (pendingOps s)(p := None)\<rparr>))))"

definition reject_promise :: "nat \<Rightarrow> state \<Rightarrow> state" where
  "reject_promise p s =
     (case pendingOps s p of
        None \<Rightarrow> s
      | Some (r, op) \<Rightarrow> emit (Rejected p) (s\<lparr>pendingOps := (pendingOps s)(p := None)\<rparr>))"

text \<open>\<^verbatim>\<open>openBoxOrExecute\<close>: one read of the directory, then the command or the start path.\<close>

definition openBoxOrExecute ::
  "Widget \<Rightarrow> SearchProviderRegistry \<Rightarrow> (js_object \<Rightarrow> state \<Rightarrow> state) \<Rightarrow> state \<Rightarrow> outcome \<times> state" where
  "openBoxOrExecute currentWidget registry command s =
     (let s1 = emit (ReadDirectory (widget_id currentWidget)) s
      in case get_property (activeSearches s) (widget_id currentWidget) of
           Some instance \<Rightarrow> (Returned, command instance s1)
         | None \<Rightarrow> onStartCommand currentWidget registry s1)"

section \<open>index.ts: the three commands\<close>

text \<open>
  The \<^verbatim>\<open>execute\<close> functions registered by \<^verbatim>\<open>activate\<close>. Their input is
  \<^verbatim>\<open>app.shell.currentWidget\<close>, which is a widget or null.
\<close>

definition execute_startCommand :: "Widget option \<Rightarrow> SearchProviderRegistry \<Rightarrow> state \<Rightarrow> outcome \<times> state" where
  "execute_startCommand currentWidget registry s =
     (case currentWidget of
        None \<Rightarrow> (Returned, s)
      | Some w \<Rightarrow> onStartCommand w registry s)"

definition execute_nextCommand :: "Widget option \<Rightarrow> SearchProviderRegistry \<Rightarrow> state \<Rightarrow> outcome \<times> state" where
  "execute_nextCommand currentWidget registry s =
     (case currentWidget of
        None \<Rightarrow> (Returned, s)
      | Some w \<Rightarrow> openBoxOrExecute w registry onNextCommand s)"

definition execute_prevCommand :: "Widget option \<Rightarrow> SearchProviderRegistry \<Rightarrow> state \<Rightarrow> outcome \<times> state" where
  "execute_prevCommand currentWidget registry s =
     (case currentWidget of
        None \<Rightarrow> (Returned, s)
      | Some w \<Rightarrow> openBoxOrExecute w registry onPrevCommand s)"

subsection \<open>Runs of the extension\<close>

text \<open>
  What can happen to an activated extension: one of the three commands is executed, the
  promise of a pending provider operation resolves or is rejected, or an overlay widget is
  disposed. A run starts from the state \<^verbatim>\<open>activate\<close> creates, with an empty directory.
\<close>

datatype event =
    StartCommand "Widget option"
  | NextCommand "Widget option"
  | PrevCommand "Widget option"
  | Resolve nat
  | Reject nat
  | DisposeOverlay nat

fun step :: "SearchProviderRegistry \<Rightarrow> state \<Rightarrow> event \<Rightarrow> state" where
  "step registry s (StartCommand cw) = snd (execute_startCommand cw registry s)"
| "step registry s (NextCommand cw) = snd (execute_nextCommand cw registry s)"
| "step registry s (PrevCommand cw) = snd (execute_prevCommand cw registry s)"
| "step registry s (Resolve p) = resolve_promise p s"
| "step registry s (Reject p) = reject_promise p s"
| "step registry s (DisposeOverlay r) = dispose_searchWidget r s"

definition run :: "SearchProviderRegistry \<Rightarrow> event list \<Rightarrow> state" where
  "run registry es = foldl (step registry) initial_state es"

section \<open>Notions used to state the properties\<close>

text \<open>
  The instance that \<^verbatim>\<open>onStartCommand\<close> leaves in the store when it creates one: bound to
  the document and the provider, its overlay connected to the slot that deletes the
  directory entry and attached to the document's node, its input focused.
\<close>

definition created_instance :: "Widget \<Rightarrow> ISearchProvider \<Rightarrow> SearchInstance" where
  "created_instance w p =
     \<lparr>widget = w, provider = p, displayState = initial_displayState\<lparr>forceFocus := True\<rparr>,
      searchWidget_isDisposed = False,
      searchWidget_slots = [DeleteActiveSearch (widget_id w)],
      searchWidget_host = Some (node w)\<rparr>"

text \<open>
  What the directory and the \<^verbatim>\<open>disposed\<close> handler depend on in an instance: the id of
  its document, whether its overlay is disposed, and the slots connected to the overlay.
\<close>

definition skeleton :: "state \<Rightarrow> nat \<Rightarrow> (string \<times> bool \<times> slot list) option" where
  "skeleton s r =
     map_option (\<lambda>i. (widget_id (widget i), searchWidget_isDisposed i, searchWidget_slots i))
       (heap s r)"

text \<open>
  The invariant of the directory. Every instance in the store was allocated before the
  next fresh reference, its overlay carries exactly the slot that deletes the entry of its
  own document, and while the overlay is not disposed the directory maps the document's
  id to this instance. Every directory entry is an own property whose name is not
  inherited, and it refers to an instance for that id whose overlay is not disposed.
\<close>

definition directory_inv :: "state \<Rightarrow> bool" where
  "directory_inv s =
     ((\<forall>r k d sl. skeleton s r = Some (k, d, sl) \<longrightarrow>
          r < nextRef s \<and> sl = [DeleteActiveSearch k] \<and>
          (\<not> d \<longrightarrow> activeSearches s k = Some r)) \<and>
      (\<forall>k r. activeSearches s k = Some r \<longrightarrow>
          k \<notin> set Object_prototype_keys \<and>
          skeleton s r = Some (k, False, [DeleteActiveSearch k])))"

text \<open>The effects a command appended to the trace, between the states before and after.\<close>

definition effects_since :: "state \<Rightarrow> state \<Rightarrow> effect list" where
  "effects_since s s' = drop (length (trace s)) (trace s')"

subsection \<open>Example documents and provider classes\<close>

text \<open>
  Two widget objects with the same id, a widget with another id, a provider class that
  accepts one document only and one that accepts every document.
\<close>

definition notebook_widget :: Widget where
  "notebook_widget = \<lparr>widget_id = ''notebook-1'', node = 7\<rparr>"

definition notebook_widget_again :: Widget where
  "notebook_widget_again = \<lparr>widget_id = ''notebook-1'', node = 8\<rparr>"

definition editor_widget :: Widget where
  "editor_widget = \<lparr>widget_id = ''editor-2'', node = 9\<rparr>"

definition NotebookProvider :: ISearchProviderConstructor where
  "NotebookProvider = \<lparr>className = ''NotebookProvider'', canSearchOn = (\<lambda>w. widget_id w = ''notebook-1'')\<rparr>"

definition GenericProvider :: ISearchProviderConstructor where
  "GenericProvider = \<lparr>className = ''GenericProvider'', canSearchOn = (\<lambda>w. True)\<rparr>"

text \<open>
  The state after one start-search on the notebook with the general provider class
  registered: one instance, numbered 0, registered under the notebook's id.
\<close>

definition searching_notebook :: state where
  "searching_notebook =
     \<lparr>activeSearches = [''notebook-1'' \<mapsto> 0],
      heap = [0 \<mapsto> created_instance notebook_widget (new_provider GenericProvider)],
      nextRef = 1, pendingOps = Map.empty, nextPromise = 0,
      trace = [ReadDirectory ''notebook-1'',
               CalledGetProviderForWidget notebook_widget (Some ''GenericProvider''),
               ConstructedInstance 0, WroteDirectory ''notebook-1'' 0,
               ConnectedDisposed 0 ''notebook-1'', AttachedOverlay 0 7, CalledFocusInput 0]\<rparr>"

text \<open>A widget whose id is the name of a property inherited from \<^verbatim>\<open>Object.prototype\<close>.\<close>

definition constructor_widget :: Widget where
  "constructor_widget = \<lparr>widget_id = ''constructor'', node = 3\<rparr>"

text \<open>Whether an event is one of the three commands executed on a widget with the given id.\<close>

fun command_on :: "string \<Rightarrow> event \<Rightarrow> bool" where
  "command_on k (StartCommand (Some w)) = (widget_id w = k)"
| "command_on k (NextCommand (Some w)) = (widget_id w = k)"
| "command_on k (PrevCommand (Some w)) = (widget_id w = k)"
| "command_on k e = False"

fun is_disposal :: "event \<Rightarrow> bool" where
  "is_disposal (DisposeOverlay r) = True"
| "is_disposal e = False"

text \<open>
  The order of effects in a trace. A call of \<^verbatim>\<open>updateIndices\<close> on an instance is in
  order when the effect just before it is the settlement of a promise that an earlier
  call of \<^verbatim>\<open>highlightNext\<close> or \<^verbatim>\<open>highlightPrevious\<close> on the provider of the same
  instance returned. \<open>updates_follow_settlement past rest\<close> checks every call of
  \<^verbatim>\<open>updateIndices\<close> in \<open>rest\<close>, given the effects \<open>past\<close> before it.
\<close>

definition update_allowed :: "effect list \<Rightarrow> nat \<Rightarrow> bool" where
  "update_allowed past r =
     (case rev past of
        Settled p # earlier \<Rightarrow>
          CalledHighlight Next r p \<in> set earlier \<or> CalledHighlight Previous r p \<in> set earlier
      | _ \<Rightarrow> False)"

fun updates_follow_settlement :: "effect list \<Rightarrow> effect list \<Rightarrow> bool" where
  "updates_follow_settlement past [] = True"
| "updates_follow_settlement past (CalledUpdateIndices r # rest) =
     (update_allowed past r \<and> updates_follow_settlement (past @ [CalledUpdateIndices r]) rest)"
| "updates_follow_settlement past (e # rest) = updates_follow_settlement (past @ [e]) rest"

fun is_update :: "effect \<Rightarrow> bool" where
  "is_update (CalledUpdateIndices r) = True"
| "is_update e = False"

text \<open>
  What one event may do to the trace and to the pending operations: it appends effects,
  which either contain no call of \<^verbatim>\<open>updateIndices\<close> or are the settlement of a pending
  operation followed by the update of its instance, and every operation pending afterwards
  was pending before or was called among the appended effects.
\<close>

definition step_ok :: "state \<Rightarrow> state \<Rightarrow> bool" where
  "step_ok s s' =
     (\<exists>new. trace s' = trace s @ new \<and>
        (list_all (\<lambda>e. \<not> is_update e) new \<or>
         (\<exists>p r op. pendingOps s p = Some (r, op) \<and> new = [Settled p, CalledUpdateIndices r])) \<and>
        (\<forall>p r op. pendingOps s' p = Some (r, op) \<longrightarrow>
           pendingOps s p = Some (r, op) \<or> CalledHighlight op r p \<in> set new))"

definition trace_inv :: "state \<Rightarrow> bool" where
  "trace_inv s =
     (updates_follow_settlement [] (trace s) \<and>
      (\<forall>p r op. pendingOps s p = Some (r, op) \<longrightarrow> CalledHighlight op r p \<in> set (trace s)))"

text \<open>
  An example with matches: the document reads \<^verbatim>\<open>foo bar foo\<close> and the query \<^verbatim>\<open>foo\<close> has
  been run, so the provider of instance 0 holds two matches, at columns 0 and 8 of line 0
  with indices 0 and 1, and no current match yet. The doubles 0, 1 and 8 have the bit
  patterns \<open>0\<close>, \<open>0x3FF0000000000000\<close> and \<open>0x4020000000000000\<close>.
\<close>

definition foo_matches :: "ISearchMatch list" where
  "foo_matches =
     [\<lparr>match_text = ''foo'', match_fragment = ''foo bar foo'', match_line = 0,
       match_column = 0, match_index = 0\<rparr>,
      \<lparr>match_text = ''foo'', match_fragment = ''foo bar foo'', match_line = 0,
       match_column = 0x4020000000000000, match_index = 0x3FF0000000000000\<rparr>]"

definition notebook_instance_with_matches :: SearchInstance where
  "notebook_instance_with_matches =
     (created_instance notebook_widget (new_provider GenericProvider))
       \<lparr>provider := \<lparr>providerClass = ''GenericProvider'', matches = foo_matches,
                      currentMatchIndex = None\<rparr>,
        displayState := initial_displayState\<lparr>totalMatches := 2, inputText := ''foo''\<rparr>\<rparr>"

definition searching_with_matches :: state where
  "searching_with_matches = searching_notebook\<lparr>heap := [0 \<mapsto> notebook_instance_with_matches]\<rparr>"

section \<open>Basic facts\<close>

lemma set_property_undefined:
  "get_property m k = None \<Longrightarrow> set_property m k r = m(k \<mapsto> r)"
  by (auto simp: get_property_def set_property_def Object_prototype_keys_def split: option.splits if_splits)

lemma delete_property_apply [simp]: "delete_property m k = m(k := None)"
  by (simp add: delete_property_def)

lemma emit_simps [simp]:
  "activeSearches (emit e s) = activeSearches s"
  "heap (emit e s) = heap s"
  "nextRef (emit e s) = nextRef s"
  "pendingOps (emit e s) = pendingOps s"
  "nextPromise (emit e s) = nextPromise s"
  "trace (emit e s) = trace s @ [e]"
  by (simp_all add: emit_def)

lemma modify_instance_simps [simp]:
  "activeSearches (modify_instance r f s) = activeSearches s"
  "nextRef (modify_instance r f s) = nextRef s"
  "pendingOps (modify_instance r f s) = pendingOps s"
  "nextPromise (modify_instance r f s) = nextPromise s"
  "trace (modify_instance r f s) = trace s"
  by (simp_all add: modify_instance_def split: option.splits)

lemma heap_modify_instance [simp]:
  "heap (modify_instance r f s) r' = (if r' = r then map_option f (heap s r) else heap s r')"
  by (simp add: modify_instance_def split: option.splits)

lemma focusInput_simps [simp]:
  "activeSearches (focusInput r s) = activeSearches s"
  "nextRef (focusInput r s) = nextRef s"
  "pendingOps (focusInput r s) = pendingOps s"
  "nextPromise (focusInput r s) = nextPromise s"
  "trace (focusInput r s) = trace s @ [CalledFocusInput r]"
  "heap (focusInput r s) r' =
     (if r' = r then map_option (\<lambda>i. i\<lparr>displayState := (displayState i)\<lparr>forceFocus := True\<rparr>\<rparr>) (heap s r)
      else heap s r')"
  by (simp_all add: focusInput_def)

lemma updateIndices_simps [simp]:
  "activeSearches (updateIndices r s) = activeSearches s"
  "nextRef (updateIndices r s) = nextRef s"
  "pendingOps (updateIndices r s) = pendingOps s"
  "nextPromise (updateIndices r s) = nextPromise s"
  "trace (updateIndices r s) = trace s @ [CalledUpdateIndices r]"
  "heap (updateIndices r s) r' =
     (if r' = r
      then map_option (\<lambda>i. i\<lparr>displayState := (displayState i)
                  \<lparr>totalMatches := length (matches (provider i)),
                   currentIndex := currentMatchIndex (provider i)\<rparr>\<rparr>) (heap s r)
      else heap s r')"
  by (simp_all add: updateIndices_def)

lemma call_highlight_simps [simp]:
  "activeSearches (call_highlight op r s) = activeSearches s"
  "heap (call_highlight op r s) = heap s"
  "nextRef (call_highlight op r s) = nextRef s"
  "pendingOps (call_highlight op r s) = (pendingOps s)(nextPromise s \<mapsto> (r, op))"
  "nextPromise (call_highlight op r s) = Suc (nextPromise s)"
  "trace (call_highlight op r s) = trace s @ [CalledHighlight op r (nextPromise s)]"
  by (simp_all add: call_highlight_def Let_def)

lemma resolve_promise_simps [simp]:
  "activeSearches (resolve_promise p s) = activeSearches s"
  "nextRef (resolve_promise p s) = nextRef s"
  "nextPromise (resolve_promise p s) = nextPromise s"
  by (simp_all add: resolve_promise_def split: option.splits)

lemma reject_promise_simps [simp]:
  "activeSearches (reject_promise p s) = activeSearches s"
  "heap (reject_promise p s) = heap s"
  "nextRef (reject_promise p s) = nextRef s"
  "nextPromise (reject_promise p s) = nextPromise s"
  by (simp_all add: reject_promise_def split: option.splits)

lemma heap_run_slots [simp]: "heap (fold run_slot sl t) = heap t"
proof (induction sl arbitrary: t)
  case Nil
  show ?case by simp
next
  case (Cons x xs)
  then show ?case by (cases x) simp
qed

lemma matches_provider_operation [simp]:
  "matches (provider_operation op p) = matches p"
  by (cases op) (simp_all add: highlightNext_def highlightPrevious_def)

lemma effects_since_append [simp]: "trace s' = trace s @ new \<Longrightarrow> effects_since s s' = new"
  by (simp add: effects_since_def)

lemma state_eqI:
  "activeSearches s = activeSearches s' \<Longrightarrow> heap s = heap s' \<Longrightarrow> nextRef s = nextRef s' \<Longrightarrow>
   pendingOps s = pendingOps s' \<Longrightarrow> nextPromise s = nextPromise s' \<Longrightarrow> trace s = trace s' \<Longrightarrow>
   s = (s' :: state)"
  by simp

lemma run_snoc: "run registry (es @ [e]) = step registry (run registry es) e"
  by (simp add: run_def)

lemma run_Nil: "run registry [] = initial_state"
  by (simp add: run_def)

lemma new_provider_fields [simp]:
  "providerClass (new_provider c) = className c"
  "matches (new_provider c) = []"
  "currentMatchIndex (new_provider c) = None"
  by (simp_all add: new_provider_def)

subsection \<open>The lookup, and the commands case by case\<close>

lemma get_property_None_iff:
  "get_property m k = None \<longleftrightarrow> m k = None \<and> k \<notin> set Object_prototype_keys"
  by (simp add: get_property_def split: option.splits)

lemma get_property_Instance_iff:
  "get_property m k = Some (InstanceRef r) \<longleftrightarrow> m k = Some r"
  by (simp add: get_property_def split: option.splits)

lemma get_property_cases:
  obtains (found) r where "m k = Some r" "get_property m k = Some (InstanceRef r)"
  | (inherited) "m k = None" "get_property m k = Some InheritedMember"
  | (undefined) "m k = None" "k \<notin> set Object_prototype_keys" "get_property m k = None"
  by (cases "m k"; cases "k \<in> set Object_prototype_keys") (auto simp: get_property_def)

lemma onStartCommand_found:
  "activeSearches s (widget_id w) = Some r \<Longrightarrow>
   onStartCommand w registry s =
     (Returned, focusInput r (emit (ReadDirectory (widget_id w)) (emit (ReadDirectory (widget_id w)) s)))"
  by (simp add: onStartCommand_def get_property_def Let_def)

lemma onStartCommand_inherited:
  "get_property (activeSearches s) (widget_id w) = Some InheritedMember \<Longrightarrow>
   onStartCommand w registry s =
     (Raised TypeError, emit (ReadDirectory (widget_id w)) (emit (ReadDirectory (widget_id w)) s))"
  by (simp add: onStartCommand_def Let_def)

lemma onStartCommand_no_provider:
  "get_property (activeSearches s) (widget_id w) = None \<Longrightarrow>
   getProviderForWidget registry w = None \<Longrightarrow>
   onStartCommand w registry s =
     (Returned, emit (CalledGetProviderForWidget w None) (emit (ReadDirectory (widget_id w)) s))"
  by (simp add: onStartCommand_def Let_def)

lemma onStartCommand_created:
  assumes "get_property (activeSearches s) (widget_id w) = None"
    and "getProviderForWidget registry w = Some p"
  shows "fst (onStartCommand w registry s) = Returned"
    and "activeSearches (snd (onStartCommand w registry s)) = (activeSearches s)(widget_id w \<mapsto> nextRef s)"
    and "heap (snd (onStartCommand w registry s)) = (heap s)(nextRef s \<mapsto> created_instance w p)"
    and "nextRef (snd (onStartCommand w registry s)) = Suc (nextRef s)"
    and "pendingOps (snd (onStartCommand w registry s)) = pendingOps s"
    and "nextPromise (snd (onStartCommand w registry s)) = nextPromise s"
    and "trace (snd (onStartCommand w registry s)) = trace s @
          [ReadDirectory (widget_id w), CalledGetProviderForWidget w (Some (providerClass p)),
           ConstructedInstance (nextRef s), WroteDirectory (widget_id w) (nextRef s),
           ConnectedDisposed (nextRef s) (widget_id w), AttachedOverlay (nextRef s) (node w),
           CalledFocusInput (nextRef s)]"
  using assms
  by (simp_all add: onStartCommand_def Let_def created_instance_def new_SearchInstance_def
        set_property_undefined fun_eq_iff)

lemma openBoxOrExecute_found:
  "activeSearches s (widget_id w) = Some r \<Longrightarrow>
   openBoxOrExecute w registry command s =
     (Returned, command (InstanceRef r) (emit (ReadDirectory (widget_id w)) s))"
  by (simp add: openBoxOrExecute_def get_property_def Let_def)

lemma openBoxOrExecute_inherited:
  "get_property (activeSearches s) (widget_id w) = Some InheritedMember \<Longrightarrow>
   openBoxOrExecute w registry command s =
     (Returned, command InheritedMember (emit (ReadDirectory (widget_id w)) s))"
  by (simp add: openBoxOrExecute_def Let_def)

lemma openBoxOrExecute_undefined:
  "get_property (activeSearches s) (widget_id w) = None \<Longrightarrow>
   openBoxOrExecute w registry command s =
     onStartCommand w registry (emit (ReadDirectory (widget_id w)) s)"
  by (simp add: openBoxOrExecute_def Let_def)

lemma pendingOps_onStartCommand [simp]:
  "pendingOps (snd (onStartCommand w registry s)) = pendingOps s"
  "nextPromise (snd (onStartCommand w registry s)) = nextPromise s"
proof -
  show "pendingOps (snd (onStartCommand w registry s)) = pendingOps s"
  proof (cases rule: get_property_cases [of "activeSearches s" "widget_id w"])
    case (found r)
    then show ?thesis by (simp add: onStartCommand_found)
  next
    case inherited
    then show ?thesis by (simp add: onStartCommand_inherited)
  next
    case undefined
    then show ?thesis
      by (cases "getProviderForWidget registry w")
         (simp_all add: onStartCommand_no_provider onStartCommand_created)
  qed
  show "nextPromise (snd (onStartCommand w registry s)) = nextPromise s"
  proof (cases rule: get_property_cases [of "activeSearches s" "widget_id w"])
    case (found r)
    then show ?thesis by (simp add: onStartCommand_found)
  next
    case inherited
    then show ?thesis by (simp add: onStartCommand_inherited)
  next
    case undefined
    then show ?thesis
      by (cases "getProviderForWidget registry w")
         (simp_all add: onStartCommand_no_provider onStartCommand_created)
  qed
qed

lemma getProviderForWidget_None_iff:
  "getProviderForWidget registry w = None \<longleftrightarrow> (\<forall>c \<in> set registry. \<not> canSearchOn c w)"
  by (induction registry) auto

lemma getProviderForWidget_Some_iff:
  "getProviderForWidget registry w = Some p \<longleftrightarrow>
     (\<exists>i < length registry. canSearchOn (registry ! i) w \<and>
        (\<forall>j < i. \<not> canSearchOn (registry ! j) w) \<and> p = new_provider (registry ! i))"
proof (induction registry)
  case Nil
  show ?case by simp
next
  case (Cons c cs)
  show ?case
  proof (cases "canSearchOn c w")
    case True
    have "(\<exists>i < length (c # cs). canSearchOn ((c # cs) ! i) w \<and>
        (\<forall>j < i. \<not> canSearchOn ((c # cs) ! j) w) \<and> p = new_provider ((c # cs) ! i))
        \<longleftrightarrow> p = new_provider c"
    proof
      assume "\<exists>i < length (c # cs). canSearchOn ((c # cs) ! i) w \<and>
        (\<forall>j < i. \<not> canSearchOn ((c # cs) ! j) w) \<and> p = new_provider ((c # cs) ! i)"
      then obtain i where i: "canSearchOn ((c # cs) ! i) w"
        "\<forall>j < i. \<not> canSearchOn ((c # cs) ! j) w" "p = new_provider ((c # cs) ! i)"
        by blast
      have "i = 0"
      proof (rule ccontr)
        assume "i \<noteq> 0"
        then have "0 < i" by simp
        with i(2) have "\<not> canSearchOn ((c # cs) ! 0) w" by blast
        with True show False by simp
      qed
      with i(3) show "p = new_provider c" by simp
    next
      assume "p = new_provider c"
      with True show "\<exists>i < length (c # cs). canSearchOn ((c # cs) ! i) w \<and>
        (\<forall>j < i. \<not> canSearchOn ((c # cs) ! j) w) \<and> p = new_provider ((c # cs) ! i)"
        by (intro exI [of _ 0]) simp
    qed
    with True show ?thesis by auto
  next
    case False
    have "(\<exists>i < length (c # cs). canSearchOn ((c # cs) ! i) w \<and>
        (\<forall>j < i. \<not> canSearchOn ((c # cs) ! j) w) \<and> p = new_provider ((c # cs) ! i))
        \<longleftrightarrow> (\<exists>i < length cs. canSearchOn (cs ! i) w \<and>
        (\<forall>j < i. \<not> canSearchOn (cs ! j) w) \<and> p = new_provider (cs ! i))"
      (is "?L \<longleftrightarrow> ?R")
    proof
      assume ?L
      then obtain i where i: "i < length (c # cs)" "canSearchOn ((c # cs) ! i) w"
        "\<forall>j < i. \<not> canSearchOn ((c # cs) ! j) w" "p = new_provider ((c # cs) ! i)"
        by blast
      from i(2) False obtain i' where i': "i = Suc i'" by (cases i) auto
      have "\<forall>j < i'. \<not> canSearchOn (cs ! j) w"
      proof (intro allI impI)
        fix j assume "j < i'"
        then have "Suc j < i" using i' by simp
        with i(3) have "\<not> canSearchOn ((c # cs) ! Suc j) w" by blast
        then show "\<not> canSearchOn (cs ! j) w" by simp
      qed
      with i i' show ?R by (intro exI [of _ i']) simp
    next
      assume ?R
      then obtain i where i: "i < length cs" "canSearchOn (cs ! i) w"
        "\<forall>j < i. \<not> canSearchOn (cs ! j) w" "p = new_provider (cs ! i)"
        by blast
      have "\<forall>j < Suc i. \<not> canSearchOn ((c # cs) ! j) w"
      proof (intro allI impI)
        fix j assume "j < Suc i"
        then show "\<not> canSearchOn ((c # cs) ! j) w"
          using False i(3) by (cases j) simp_all
      qed
      with i show ?L by (intro exI [of _ "Suc i"]) simp
    qed
    with False Cons.IH show ?thesis by simp
  qed
qed

lemma registry_answer_logged_iff:
  "CalledGetProviderForWidget w a \<in> set (effects_since s (snd (onStartCommand w registry s))) \<longleftrightarrow>
     get_property (activeSearches s) (widget_id w) = None \<and>
     a = map_option providerClass (getProviderForWidget registry w)"
proof (cases rule: get_property_cases [of "activeSearches s" "widget_id w"])
  case (found r)
  then show ?thesis by (simp add: onStartCommand_found)
next
  case inherited
  then show ?thesis by (simp add: onStartCommand_inherited)
next
  case undefined
  show ?thesis
  proof (cases "getProviderForWidget registry w")
    case None
    with undefined show ?thesis by (auto simp: onStartCommand_no_provider)
  next
    case (Some p)
    with undefined show ?thesis
      by (auto simp: onStartCommand_created(7) [OF undefined(3) Some])
  qed
qed

lemma dispose_searchWidget_live:
  assumes "heap s r = Some i" "\<not> searchWidget_isDisposed i"
    and "searchWidget_slots i = [DeleteActiveSearch k]"
  shows "dispose_searchWidget r s =
     emit (DeletedDirectory k)
       ((emit (DisposedOverlay r) (modify_instance r (\<lambda>j. j\<lparr>searchWidget_isDisposed := True\<rparr>) s))
          \<lparr>activeSearches := (activeSearches s)(k := None)\<rparr>)"
  using assms by (simp add: dispose_searchWidget_def modify_instance_def emit_def)

lemma dispose_searchWidget_idle:
  "heap s r = None \<or> (\<exists>i. heap s r = Some i \<and> searchWidget_isDisposed i) \<Longrightarrow>
   dispose_searchWidget r s = s"
  by (auto simp: dispose_searchWidget_def)

section \<open>The invariant of the directory\<close>

lemma directory_invD1:
  "directory_inv s \<Longrightarrow> skeleton s r = Some (k, d, sl) \<Longrightarrow>
   r < nextRef s \<and> sl = [DeleteActiveSearch k] \<and> (\<not> d \<longrightarrow> activeSearches s k = Some r)"
  unfolding directory_inv_def by blast

lemma directory_invD2:
  "directory_inv s \<Longrightarrow> activeSearches s k = Some r \<Longrightarrow>
   k \<notin> set Object_prototype_keys \<and> skeleton s r = Some (k, False, [DeleteActiveSearch k])"
  unfolding directory_inv_def by blast

lemma directory_inv_cong:
  "skeleton s' = skeleton s \<Longrightarrow> activeSearches s' = activeSearches s \<Longrightarrow>
   nextRef s' = nextRef s \<Longrightarrow> directory_inv s' = directory_inv s"
  by (simp add: directory_inv_def)

lemma skeleton_emit [simp]: "skeleton (emit e s) = skeleton s"
  by (simp add: skeleton_def fun_eq_iff)

lemma skeleton_focusInput [simp]: "skeleton (focusInput r s) = skeleton s"
  by (auto simp: skeleton_def fun_eq_iff option.map_comp o_def)

lemma skeleton_updateIndices [simp]: "skeleton (updateIndices r s) = skeleton s"
  by (auto simp: skeleton_def fun_eq_iff option.map_comp o_def)

lemma skeleton_call_highlight [simp]: "skeleton (call_highlight op r s) = skeleton s"
  by (simp add: skeleton_def fun_eq_iff)

lemma skeleton_resolve_promise [simp]: "skeleton (resolve_promise p s) = skeleton s"
  by (auto simp: resolve_promise_def skeleton_def fun_eq_iff option.map_comp o_def
        split: option.splits)

lemma skeleton_reject_promise [simp]: "skeleton (reject_promise p s) = skeleton s"
  by (auto simp: reject_promise_def skeleton_def fun_eq_iff split: option.splits)

lemma directory_inv_emit [simp]: "directory_inv (emit e s) = directory_inv s"
  by (rule directory_inv_cong) simp_all

lemma directory_inv_focusInput [simp]: "directory_inv (focusInput r s) = directory_inv s"
  by (rule directory_inv_cong) simp_all

lemma directory_inv_updateIndices [simp]: "directory_inv (updateIndices r s) = directory_inv s"
  by (rule directory_inv_cong) simp_all

lemma directory_inv_call_highlight [simp]:
  "directory_inv (call_highlight op r s) = directory_inv s"
  by (rule directory_inv_cong) simp_all

lemma directory_inv_resolve_promise [simp]:
  "directory_inv (resolve_promise p s) = directory_inv s"
  by (rule directory_inv_cong) simp_all

lemma directory_inv_reject_promise [simp]:
  "directory_inv (reject_promise p s) = directory_inv s"
  by (rule directory_inv_cong) simp_all

lemma directory_inv_initial: "directory_inv initial_state"
  by (simp add: directory_inv_def initial_state_def skeleton_def)

lemma directory_inv_onStartCommand:
  assumes "directory_inv s"
  shows "directory_inv (snd (onStartCommand w registry s))"
proof (cases rule: get_property_cases [of "activeSearches s" "widget_id w"])
  case (found r)
  with assms show ?thesis
    by (simp add: onStartCommand_found)
next
  case inherited
  with assms show ?thesis
    by (simp add: onStartCommand_inherited)
next
  case undefined
  show ?thesis
  proof (cases "getProviderForWidget registry w")
    case None
    with undefined assms show ?thesis
      by (simp add: onStartCommand_no_provider)
  next
    case (Some p)
    note c = onStartCommand_created [OF undefined(3) Some]
    have sk: "skeleton (snd (onStartCommand w registry s)) =
        (skeleton s)(nextRef s \<mapsto> (widget_id w, False, [DeleteActiveSearch (widget_id w)]))"
      by (simp add: skeleton_def c fun_eq_iff created_instance_def)
    note I1 = directory_invD1 [OF assms]
    note I2 = directory_invD2 [OF assms]
    have fresh: "skeleton s (nextRef s) = None"
    proof (cases "skeleton s (nextRef s)")
      case (Some x)
      obtain k d sl where "x = (k, d, sl)" by (cases x)
      with Some I1 [of "nextRef s" k d sl] show ?thesis by simp
    qed simp
    have nodir: "activeSearches s k \<noteq> Some (nextRef s)" for k
      using I2 [of k "nextRef s"] fresh by auto
    show ?thesis
      unfolding directory_inv_def sk c
    proof (intro conjI allI impI)
      fix r k d sl
      assume a: "((skeleton s)(nextRef s \<mapsto> (widget_id w, False, [DeleteActiveSearch (widget_id w)]))) r
                  = Some (k, d, sl)"
      show "r < Suc (nextRef s)"
        using a I1 [of r k d sl] by (cases "r = nextRef s") simp_all
      show "sl = [DeleteActiveSearch k]"
        using a I1 [of r k d sl] by (cases "r = nextRef s") auto
      assume nd: "\<not> d"
      show "((activeSearches s)(widget_id w \<mapsto> nextRef s)) k = Some r"
      proof (cases "r = nextRef s")
        case True
        with a show ?thesis by simp
      next
        case False
        with a nd I1 [of r k d sl] have "activeSearches s k = Some r" by simp
        with undefined(1) show ?thesis by (cases "k = widget_id w") simp_all
      qed
    next
      fix k r
      assume a: "((activeSearches s)(widget_id w \<mapsto> nextRef s)) k = Some r"
      show "k \<notin> set Object_prototype_keys"
        using a undefined(2) I2 [of k r] by (cases "k = widget_id w") simp_all
      show "((skeleton s)(nextRef s \<mapsto> (widget_id w, False, [DeleteActiveSearch (widget_id w)]))) r
              = Some (k, False, [DeleteActiveSearch k])"
      proof (cases "k = widget_id w")
        case True
        with a show ?thesis by simp
      next
        case False
        with a have "activeSearches s k = Some r" by simp
        with I2 [of k r] nodir [of k] show ?thesis by auto
      qed
    qed
  qed
qed

lemma directory_inv_openBoxOrExecute:
  assumes "directory_inv s"
  shows "directory_inv (snd (openBoxOrExecute w registry onNextCommand s))"
    and "directory_inv (snd (openBoxOrExecute w registry onPrevCommand s))"
  using assms
  by (auto simp: openBoxOrExecute_def Let_def onNextCommand_def onPrevCommand_def
        directory_inv_onStartCommand split: option.splits js_object.splits)

lemma directory_inv_dispose:
  assumes "directory_inv s"
  shows "directory_inv (dispose_searchWidget r s)"
proof (cases "heap s r")
  case None
  with assms show ?thesis by (simp add: dispose_searchWidget_idle)
next
  case (Some i)
  show ?thesis
  proof (cases "searchWidget_isDisposed i")
    case True
    with Some assms show ?thesis by (simp add: dispose_searchWidget_idle)
  next
    case False
    define k where "k = widget_id (widget i)"
    have skr: "skeleton s r = Some (k, False, searchWidget_slots i)"
      using Some False by (simp add: skeleton_def k_def)
    note I1 = directory_invD1 [OF assms]
    note I2 = directory_invD2 [OF assms]
    from I1 [OF skr] have sl: "searchWidget_slots i = [DeleteActiveSearch k]"
      and reg: "activeSearches s k = Some r" and lt: "r < nextRef s"
      by simp_all
    note d = dispose_searchWidget_live [OF Some False sl]
    have sk: "skeleton (dispose_searchWidget r s) =
        (skeleton s)(r \<mapsto> (k, True, [DeleteActiveSearch k]))"
      using Some sl by (auto simp: d skeleton_def fun_eq_iff k_def)
    have a: "activeSearches (dispose_searchWidget r s) = (activeSearches s)(k := None)"
      by (simp add: d)
    have n: "nextRef (dispose_searchWidget r s) = nextRef s"
      by (simp add: d)
    show ?thesis
      unfolding directory_inv_def sk a n
    proof (intro conjI allI impI)
      fix r' k' d' sl'
      assume h: "((skeleton s)(r \<mapsto> (k, True, [DeleteActiveSearch k]))) r' = Some (k', d', sl')"
      show "r' < nextRef s"
        using h lt I1 [of r' k' d' sl'] by (cases "r' = r") simp_all
      show "sl' = [DeleteActiveSearch k']"
        using h I1 [of r' k' d' sl'] by (cases "r' = r") auto
      assume nd: "\<not> d'"
      have ne: "r' \<noteq> r" using h nd by auto
      with h nd I1 [of r' k' d' sl'] have e: "activeSearches s k' = Some r'" by simp
      with reg ne have "k' \<noteq> k" by auto
      with e show "((activeSearches s)(k := None)) k' = Some r'" by simp
    next
      fix k' r'
      assume h: "((activeSearches s)(k := None)) k' = Some r'"
      then have kk: "k' \<noteq> k" and e: "activeSearches s k' = Some r'"
        by (auto split: if_splits)
      from I2 [OF e] show "k' \<notin> set Object_prototype_keys" by simp
      have "r' \<noteq> r"
      proof
        assume "r' = r"
        with I2 [OF e] skr have "k' = k" by simp
        with kk show False by simp
      qed
      with I2 [OF e]
      show "((skeleton s)(r \<mapsto> (k, True, [DeleteActiveSearch k]))) r' =
              Some (k', False, [DeleteActiveSearch k'])"
        by simp
    qed
  qed
qed

lemma directory_inv_step:
  "directory_inv s \<Longrightarrow> directory_inv (step registry s e)"
  by (cases e)
     (simp_all add: execute_startCommand_def execute_nextCommand_def execute_prevCommand_def
        directory_inv_onStartCommand directory_inv_openBoxOrExecute directory_inv_dispose
        split: option.splits)

lemma directory_inv_run: "directory_inv (run registry es)"
  unfolding run_def
  by (induction es rule: rev_induct) (simp_all add: directory_inv_initial directory_inv_step)

lemma registered_instance:
  assumes "activeSearches (run registry es) k = Some r"
  obtains i where "heap (run registry es) r = Some i" "\<not> searchWidget_isDisposed i"
    "widget_id (widget i) = k" "searchWidget_slots i = [DeleteActiveSearch k]"
    "k \<notin> set Object_prototype_keys"
proof -
  from directory_invD2 [OF directory_inv_run assms]
  have "k \<notin> set Object_prototype_keys"
    and "skeleton (run registry es) r = Some (k, False, [DeleteActiveSearch k])" by simp_all
  then show ?thesis
    using that by (auto simp: skeleton_def)
qed

lemma stored_instance:
  assumes "heap (run registry es) r = Some i"
  shows "searchWidget_slots i = [DeleteActiveSearch (widget_id (widget i))]"
    and "\<not> searchWidget_isDisposed i \<Longrightarrow> activeSearches (run registry es) (widget_id (widget i)) = Some r"
proof -
  have "skeleton (run registry es) r =
      Some (widget_id (widget i), searchWidget_isDisposed i, searchWidget_slots i)"
    using assms by (simp add: skeleton_def)
  from directory_invD1 [OF directory_inv_run this]
  show "searchWidget_slots i = [DeleteActiveSearch (widget_id (widget i))]"
    and "\<not> searchWidget_isDisposed i \<Longrightarrow> activeSearches (run registry es) (widget_id (widget i)) = Some r"
    by simp_all
qed

lemma activeSearches_dispose_reachable:
  assumes "heap (run registry es) r = Some i"
  shows "activeSearches (dispose_searchWidget r (run registry es)) =
           (if searchWidget_isDisposed i then activeSearches (run registry es)
            else (activeSearches (run registry es))(widget_id (widget i) := None))"
proof (cases "searchWidget_isDisposed i")
  case True
  with assms show ?thesis by (simp add: dispose_searchWidget_idle)
next
  case False
  from dispose_searchWidget_live [OF assms False stored_instance(1) [OF assms]] False
  show ?thesis by simp
qed

text \<open>
  A document whose id names an inherited property: the lookup yields the inherited member,
  the call of its \<^verbatim>\<open>focusInput\<close> raises, and the registry is never asked. This holds
  in every state a run reaches, since no entry is ever stored under such an id.
\<close>

lemma onStartCommand_inherited_id:
  "widget_id w \<in> set Object_prototype_keys \<Longrightarrow>
   onStartCommand w registry (run registry es) =
     (Raised TypeError,
      emit (ReadDirectory (widget_id w)) (emit (ReadDirectory (widget_id w)) (run registry es)))"
proof -
  assume k: "widget_id w \<in> set Object_prototype_keys"
  have "activeSearches (run registry es) (widget_id w) = None"
  proof (cases "activeSearches (run registry es) (widget_id w)")
    case (Some r)
    from directory_invD2 [OF directory_inv_run Some] k show ?thesis by simp
  qed simp
  with k have "get_property (activeSearches (run registry es)) (widget_id w) = Some InheritedMember"
    by (simp add: get_property_def)
  then show ?thesis by (rule onStartCommand_inherited)
qed

section \<open>How the commands change the directory\<close>

lemma activeSearches_onStartCommand:
  "activeSearches (snd (onStartCommand w registry s)) =
     (if get_property (activeSearches s) (widget_id w) = None \<and> getProviderForWidget registry w \<noteq> None
      then (activeSearches s)(widget_id w \<mapsto> nextRef s) else activeSearches s)"
proof (cases rule: get_property_cases [of "activeSearches s" "widget_id w"])
  case (found r)
  then show ?thesis by (simp add: onStartCommand_found)
next
  case inherited
  then show ?thesis by (simp add: onStartCommand_inherited)
next
  case undefined
  then show ?thesis
    by (cases "getProviderForWidget registry w")
       (simp_all add: onStartCommand_no_provider onStartCommand_created)
qed

lemma activeSearches_openBoxOrExecute:
  "command = onNextCommand \<or> command = onPrevCommand \<Longrightarrow>
   activeSearches (snd (openBoxOrExecute w registry command s)) =
     (if get_property (activeSearches s) (widget_id w) = None \<and> getProviderForWidget registry w \<noteq> None
      then (activeSearches s)(widget_id w \<mapsto> nextRef s) else activeSearches s)"
  by (cases rule: get_property_cases [of "activeSearches s" "widget_id w"])
     (auto simp: openBoxOrExecute_found openBoxOrExecute_inherited openBoxOrExecute_undefined
        activeSearches_onStartCommand onNextCommand_def onPrevCommand_def)

lemma activeSearches_step_command:
  assumes "\<not> is_disposal e"
  shows "activeSearches (step registry s e) = activeSearches s \<or>
   (\<exists>w :: Widget. command_on (widget_id w) e \<and> get_property (activeSearches s) (widget_id w) = None \<and>
        activeSearches (step registry s e) = (activeSearches s)(widget_id w \<mapsto> nextRef s))"
proof -
  have c: "activeSearches s' = activeSearches s \<or>
      (\<exists>w' :: Widget. command_on (widget_id w') e \<and> get_property (activeSearches s) (widget_id w') = None \<and>
        activeSearches s' = (activeSearches s)(widget_id w' \<mapsto> nextRef s))"
    if "command_on (widget_id w) e"
      and "activeSearches s' =
        (if get_property (activeSearches s) (widget_id w) = None \<and> getProviderForWidget registry w \<noteq> None
         then (activeSearches s)(widget_id w \<mapsto> nextRef s) else activeSearches s)"
    for w s'
  proof (cases "get_property (activeSearches s) (widget_id w) = None \<and> getProviderForWidget registry w \<noteq> None")
    case True
    with that show ?thesis by (intro disjI2 exI [of _ w]) simp
  next
    case False
    with that show ?thesis by (intro disjI1) auto
  qed
  show ?thesis
  proof (cases e)
    case (StartCommand cw)
    show ?thesis
    proof (cases cw)
      case None
      with StartCommand show ?thesis by (simp add: execute_startCommand_def)
    next
      case (Some w)
      with StartCommand show ?thesis
        by (intro c [of w]) (simp_all add: execute_startCommand_def activeSearches_onStartCommand)
    qed
  next
    case (NextCommand cw)
    show ?thesis
    proof (cases cw)
      case None
      with NextCommand show ?thesis by (simp add: execute_nextCommand_def)
    next
      case (Some w)
      with NextCommand show ?thesis
        by (intro c [of w]) (simp_all add: execute_nextCommand_def activeSearches_openBoxOrExecute)
    qed
  next
    case (PrevCommand cw)
    show ?thesis
    proof (cases cw)
      case None
      with PrevCommand show ?thesis by (simp add: execute_prevCommand_def)
    next
      case (Some w)
      with PrevCommand show ?thesis
        by (intro c [of w]) (simp_all add: execute_prevCommand_def activeSearches_openBoxOrExecute)
    qed
  next
    case (Resolve p)
    then show ?thesis by simp
  next
    case (Reject p)
    then show ?thesis by simp
  next
    case (DisposeOverlay r)
    with assms show ?thesis by simp
  qed
qed

lemma entry_kept_by_step:
  assumes "activeSearches s k = Some r" "\<not> is_disposal e"
  shows "activeSearches (step registry s e) k = Some r"
proof -
  from activeSearches_step_command [OF assms(2), where registry = registry and s = s]
  consider "activeSearches (step registry s e) = activeSearches s"
    | w :: Widget where "get_property (activeSearches s) (widget_id w) = None"
        "activeSearches (step registry s e) = (activeSearches s)(widget_id w \<mapsto> nextRef s)"
    by blast
  then show ?thesis
  proof cases
    case 1
    with assms show ?thesis by simp
  next
    case 2
    from 2(1) have "activeSearches s (widget_id w) = None"
      by (simp add: get_property_None_iff)
    with assms have "k \<noteq> widget_id w" by auto
    with 2(2) assms show ?thesis by simp
  qed
qed

lemma absence_kept_by_step:
  assumes "activeSearches s k = None" "\<not> command_on k e"
  shows "activeSearches (step registry s e) k = None"
proof (cases "is_disposal e")
  case True
  then obtain r where e: "e = DisposeOverlay r" by (cases e) simp_all
  have "activeSearches (fold run_slot sl t) k = None" if "activeSearches t k = None" for sl t
    using that
  proof (induction sl arbitrary: t)
    case (Cons x xs)
    then show ?case by (cases x) simp
  qed simp
  with assms show ?thesis
    by (simp add: e dispose_searchWidget_def split: option.splits)
next
  case False
  from activeSearches_step_command [OF False, where registry = registry and s = s]
  consider "activeSearches (step registry s e) = activeSearches s"
    | w :: Widget where "command_on (widget_id w) e"
        "activeSearches (step registry s e) = (activeSearches s)(widget_id w \<mapsto> nextRef s)"
    by blast
  then show ?thesis
  proof cases
    case 1
    with assms show ?thesis by simp
  next
    case 2
    with assms have "k \<noteq> widget_id w" by auto
    with 2(2) assms show ?thesis by simp
  qed
qed

section \<open>The order of effects\<close>

lemma updates_follow_settlement_Cons:
  "updates_follow_settlement past (e # rest) =
     ((case e of CalledUpdateIndices r \<Rightarrow> update_allowed past r | _ \<Rightarrow> True) \<and>
      updates_follow_settlement (past @ [e]) rest)"
  by (cases e) simp_all

lemma updates_follow_settlement_append:
  "updates_follow_settlement past (xs @ ys) =
     (updates_follow_settlement past xs \<and> updates_follow_settlement (past @ xs) ys)"
proof (induction xs arbitrary: past)
  case Nil
  show ?case by simp
next
  case (Cons x xs)
  show ?case
    by (simp only: append_Cons updates_follow_settlement_Cons Cons.IH) auto
qed

lemma updates_follow_settlement_no_update:
  "list_all (\<lambda>e. \<not> is_update e) xs \<Longrightarrow> updates_follow_settlement past xs"
proof (induction xs arbitrary: past)
  case Nil
  show ?case by simp
next
  case (Cons x xs)
  then show ?case by (cases x) simp_all
qed

lemma update_allowed_after_settlement:
  "CalledHighlight op r p \<in> set t \<Longrightarrow> update_allowed (t @ [Settled p]) r"
  by (cases op) (simp_all add: update_allowed_def)

lemma update_allowedD:
  assumes "update_allowed past r"
  shows "\<exists>p op earlier. past = earlier @ [Settled p] \<and> CalledHighlight op r p \<in> set earlier"
proof (cases "rev past")
  case Nil
  with assms show ?thesis by (simp add: update_allowed_def)
next
  case (Cons e earlier)
  with assms obtain p where e: "e = Settled p"
    by (cases e) (simp_all add: update_allowed_def)
  from Cons e assms
  have "CalledHighlight Next r p \<in> set earlier \<or> CalledHighlight Previous r p \<in> set earlier"
    by (simp add: update_allowed_def)
  then obtain op where "CalledHighlight op r p \<in> set (rev earlier)" by auto
  moreover from Cons e have "past = rev earlier @ [Settled p]"
    by (metis rev.simps(2) rev_rev_ident)
  ultimately show ?thesis by blast
qed

lemma trace_inv_step_ok:
  assumes "trace_inv s" "step_ok s s'"
  shows "trace_inv s'"
proof -
  from assms(2) obtain new where new: "trace s' = trace s @ new"
    and shape: "list_all (\<lambda>e. \<not> is_update e) new \<or>
         (\<exists>p r op. pendingOps s p = Some (r, op) \<and> new = [Settled p, CalledUpdateIndices r])"
    and pend: "\<And>p r op. pendingOps s' p = Some (r, op) \<Longrightarrow>
           pendingOps s p = Some (r, op) \<or> CalledHighlight op r p \<in> set new"
    unfolding step_ok_def by blast
  from assms(1) have old: "updates_follow_settlement [] (trace s)"
    and called: "\<And>p r op. pendingOps s p = Some (r, op) \<Longrightarrow> CalledHighlight op r p \<in> set (trace s)"
    unfolding trace_inv_def by blast+
  have "updates_follow_settlement (trace s) new"
    using shape
  proof
    assume "list_all (\<lambda>e. \<not> is_update e) new"
    then show ?thesis by (rule updates_follow_settlement_no_update)
  next
    assume "\<exists>p r op. pendingOps s p = Some (r, op) \<and> new = [Settled p, CalledUpdateIndices r]"
    then obtain p r op where p: "pendingOps s p = Some (r, op)"
      and n: "new = [Settled p, CalledUpdateIndices r]" by blast
    from called [OF p] have "update_allowed (trace s @ [Settled p]) r"
      by (rule update_allowed_after_settlement)
    with n show ?thesis by simp
  qed
  with old new have "updates_follow_settlement [] (trace s')"
    by (simp add: updates_follow_settlement_append)
  moreover have "CalledHighlight op r p \<in> set (trace s')" if "pendingOps s' p = Some (r, op)" for p r op
    using pend [OF that] called new by auto
  ultimately show ?thesis
    unfolding trace_inv_def by blast
qed

lemma step_ok_quiet:
  "trace s' = trace s @ new \<Longrightarrow> list_all (\<lambda>e. \<not> is_update e) new \<Longrightarrow>
   pendingOps s' = pendingOps s \<Longrightarrow> step_ok s s'"
  unfolding step_ok_def by auto

lemma step_ok_refl: "step_ok s s"
  by (simp add: step_ok_def)

lemma onStartCommand_quiet:
  "\<exists>new. trace (snd (onStartCommand w registry s)) = trace s @ new \<and>
         list_all (\<lambda>e. \<not> is_update e) new"
proof (cases rule: get_property_cases [of "activeSearches s" "widget_id w"])
  case (found r)
  show ?thesis
    by (rule exI [where x = "[ReadDirectory (widget_id w), ReadDirectory (widget_id w),
          CalledFocusInput r]"]) (simp add: onStartCommand_found [OF found(1)])
next
  case inherited
  show ?thesis
    by (rule exI [where x = "[ReadDirectory (widget_id w), ReadDirectory (widget_id w)]"])
       (simp add: onStartCommand_inherited [OF inherited(2)])
next
  case undefined
  show ?thesis
  proof (cases "getProviderForWidget registry w")
    case None
    show ?thesis
      by (rule exI [where x = "[ReadDirectory (widget_id w), CalledGetProviderForWidget w None]"])
         (simp add: onStartCommand_no_provider [OF undefined(3) None])
  next
    case (Some p)
    show ?thesis
      by (simp add: onStartCommand_created(7) [OF undefined(3) Some])
  qed
qed

lemma step_ok_onStartCommand: "step_ok s (snd (onStartCommand w registry s))"
proof -
  from onStartCommand_quiet [of w registry s] obtain new
    where "trace (snd (onStartCommand w registry s)) = trace s @ new"
      "list_all (\<lambda>e. \<not> is_update e) new" by blast
  then show ?thesis by (rule step_ok_quiet) simp
qed

lemma step_ok_openBoxOrExecute:
  assumes "command = onNextCommand \<and> op = Next \<or> command = onPrevCommand \<and> op = Previous"
  shows "step_ok s (snd (openBoxOrExecute w registry command s))"
proof (cases rule: get_property_cases [of "activeSearches s" "widget_id w"])
  case (found r)
  have c: "command (InstanceRef r) = call_highlight op r"
    using assms by (auto simp: onNextCommand_def onPrevCommand_def fun_eq_iff)
  show ?thesis
    unfolding step_ok_def
    by (rule exI [where x = "[ReadDirectory (widget_id w), CalledHighlight op r (nextPromise s)]"])
       (simp add: openBoxOrExecute_found [OF found(1)] c)
next
  case inherited
  have c: "command InheritedMember = emit (AsyncRejected TypeError)"
    using assms by (auto simp: onNextCommand_def onPrevCommand_def fun_eq_iff)
  show ?thesis
    by (rule step_ok_quiet [where new = "[ReadDirectory (widget_id w), AsyncRejected TypeError]"])
       (simp_all add: openBoxOrExecute_inherited [OF inherited(2)] c)
next
  case undefined
  from onStartCommand_quiet [of w registry "emit (ReadDirectory (widget_id w)) s"] obtain new
    where new: "trace (snd (onStartCommand w registry (emit (ReadDirectory (widget_id w)) s))) =
        trace s @ ReadDirectory (widget_id w) # new"
      "list_all (\<lambda>e. \<not> is_update e) new" by auto
  show ?thesis
    by (rule step_ok_quiet [where new = "ReadDirectory (widget_id w) # new"])
       (simp_all add: openBoxOrExecute_undefined [OF undefined(3)] new)
qed

lemma step_ok_resolve_promise: "step_ok s (resolve_promise p s)"
proof (cases "pendingOps s p")
  case None
  then show ?thesis by (simp add: resolve_promise_def step_ok_def)
next
  case (Some t)
  obtain r op where t: "t = (r, op)" by (cases t)
  show ?thesis
    unfolding step_ok_def
    by (rule exI [where x = "[Settled p, CalledUpdateIndices r]"])
       (use Some t in \<open>auto simp: resolve_promise_def split: if_splits\<close>)
qed

lemma step_ok_reject_promise: "step_ok s (reject_promise p s)"
proof (cases "pendingOps s p")
  case None
  then show ?thesis by (simp add: reject_promise_def step_ok_def)
next
  case (Some t)
  obtain r op where t: "t = (r, op)" by (cases t)
  show ?thesis
    unfolding step_ok_def
    by (rule exI [where x = "[Rejected p]"])
       (use Some t in \<open>auto simp: reject_promise_def split: if_splits\<close>)
qed

lemma run_slots_quiet:
  "\<exists>new. trace (fold run_slot sl t) = trace t @ new \<and> list_all (\<lambda>e. \<not> is_update e) new \<and>
         pendingOps (fold run_slot sl t) = pendingOps t"
proof (induction sl arbitrary: t)
  case Nil
  show ?case by simp
next
  case (Cons x xs)
  obtain k where x: "x = DeleteActiveSearch k" by (cases x)
  from Cons [of "run_slot x t"] obtain new
    where "trace (fold run_slot xs (run_slot x t)) = trace (run_slot x t) @ new"
      "list_all (\<lambda>e. \<not> is_update e) new"
      "pendingOps (fold run_slot xs (run_slot x t)) = pendingOps (run_slot x t)" by blast
  then show ?case
    by (intro exI [where x = "DeletedDirectory k # new"]) (simp add: x)
qed

lemma step_ok_dispose_searchWidget: "step_ok s (dispose_searchWidget r s)"
proof (cases "heap s r")
  case None
  then show ?thesis by (simp add: dispose_searchWidget_def step_ok_def)
next
  case (Some i)
  show ?thesis
  proof (cases "searchWidget_isDisposed i")
    case True
    with Some show ?thesis by (simp add: dispose_searchWidget_def step_ok_def)
  next
    case False
    let ?t = "emit (DisposedOverlay r) (modify_instance r (\<lambda>j. j\<lparr>searchWidget_isDisposed := True\<rparr>) s)"
    from run_slots_quiet [of "searchWidget_slots i" ?t] obtain new
      where "trace (fold run_slot (searchWidget_slots i) ?t) = trace s @ DisposedOverlay r # new"
        "list_all (\<lambda>e. \<not> is_update e) new"
        "pendingOps (fold run_slot (searchWidget_slots i) ?t) = pendingOps s" by auto
    then show ?thesis
      using Some False
      by (intro step_ok_quiet [where new = "DisposedOverlay r # new"])
         (simp_all add: dispose_searchWidget_def)
  qed
qed

lemma step_ok_step: "step_ok s (step registry s e)"
proof (cases e)
  case (StartCommand cw)
  then show ?thesis
    by (cases cw) (simp_all add: execute_startCommand_def step_ok_onStartCommand step_ok_refl)
next
  case (NextCommand cw)
  then show ?thesis
    by (cases cw)
       (simp_all add: execute_nextCommand_def step_ok_openBoxOrExecute [where op = Next] step_ok_refl)
next
  case (PrevCommand cw)
  then show ?thesis
    by (cases cw)
       (simp_all add: execute_prevCommand_def step_ok_openBoxOrExecute [where op = Previous] step_ok_refl)
next
  case (Resolve p)
  then show ?thesis by (simp add: step_ok_resolve_promise)
next
  case (Reject p)
  then show ?thesis by (simp add: step_ok_reject_promise)
next
  case (DisposeOverlay r)
  then show ?thesis by (simp add: step_ok_dispose_searchWidget)
qed

lemma trace_inv_run: "trace_inv (run registry es)"
proof (induction es rule: rev_induct)
  case Nil
  show ?case by (simp add: run_Nil trace_inv_def initial_state_def)
next
  case (snoc e es)
  then show ?case
    by (simp add: run_snoc trace_inv_step_ok [OF _ step_ok_step])
qed

section \<open>The match sequences of the providers\<close>

lemma nextRef_run_slots [simp]: "nextRef (fold run_slot sl t) = nextRef t"
proof (induction sl arbitrary: t)
  case Nil
  show ?case by simp
next
  case (Cons x xs)
  then show ?case by (cases x) simp
qed

lemma nextRef_dispose_searchWidget [simp]: "nextRef (dispose_searchWidget r s) = nextRef s"
  by (simp add: dispose_searchWidget_def split: option.splits)





section \<open>The examples\<close>

lemma not_inherited_examples [simp]:
  "''notebook-1'' \<notin> set Object_prototype_keys"
  "''editor-2'' \<notin> set Object_prototype_keys"
  by (simp_all add: Object_prototype_keys_def)

lemma initial_state_fields [simp]:
  "activeSearches initial_state = Map.empty"
  "heap initial_state = Map.empty"
  "nextRef initial_state = 0"
  "pendingOps initial_state = Map.empty"
  "nextPromise initial_state = 0"
  "trace initial_state = []"
  by (simp_all add: initial_state_def)

lemma searching_notebook_fields [simp]:
  "activeSearches searching_notebook = [''notebook-1'' \<mapsto> 0]"
  "heap searching_notebook = [0 \<mapsto> created_instance notebook_widget (new_provider GenericProvider)]"
  "nextRef searching_notebook = 1"
  "pendingOps searching_notebook = Map.empty"
  "nextPromise searching_notebook = 0"
  by (simp_all add: searching_notebook_def)

lemma example_class_names [simp]:
  "className GenericProvider = ''GenericProvider''"
  "className NotebookProvider = ''NotebookProvider''"
  by (simp_all add: GenericProvider_def NotebookProvider_def)

lemma example_widget_fields [simp]:
  "widget_id notebook_widget = ''notebook-1''"
  "widget_id notebook_widget_again = ''notebook-1''"
  "widget_id editor_widget = ''editor-2''"
  "node notebook_widget = 7"
  "node notebook_widget_again = 8"
  "node editor_widget = 9"
  by (simp_all add: notebook_widget_def notebook_widget_again_def editor_widget_def)

lemma example_canSearchOn [simp]:
  "canSearchOn GenericProvider w"
  "canSearchOn NotebookProvider w = (widget_id w = ''notebook-1'')"
  by (simp_all add: GenericProvider_def NotebookProvider_def)

lemma get_property_initial_notebook:
  "get_property (activeSearches initial_state) (widget_id notebook_widget) = None"
  by (simp add: get_property_def initial_state_def notebook_widget_def)

lemma run_start_notebook:
  "run [GenericProvider] [StartCommand (Some notebook_widget)] = searching_notebook"
proof -
  have p: "getProviderForWidget [GenericProvider] notebook_widget = Some (new_provider GenericProvider)"
    by (simp add: GenericProvider_def)
  note c = onStartCommand_created [OF get_property_initial_notebook p]
  have "snd (onStartCommand notebook_widget [GenericProvider] initial_state) = searching_notebook"
    by (rule state_eqI) (simp_all add: c searching_notebook_def)
  then show ?thesis
    by (simp add: run_def execute_startCommand_def)
qed

lemma run_start_notebook_then_editor:
  "activeSearches (run [GenericProvider]
      [StartCommand (Some notebook_widget), StartCommand (Some editor_widget)]) =
     [''notebook-1'' \<mapsto> 0, ''editor-2'' \<mapsto> 1]"
  "heap (run [GenericProvider]
      [StartCommand (Some notebook_widget), StartCommand (Some editor_widget)]) =
     [0 \<mapsto> created_instance notebook_widget (new_provider GenericProvider),
      1 \<mapsto> created_instance editor_widget (new_provider GenericProvider)]"
  "nextPromise (run [GenericProvider]
      [StartCommand (Some notebook_widget), StartCommand (Some editor_widget)]) = 0"
  "pendingOps (run [GenericProvider]
      [StartCommand (Some notebook_widget), StartCommand (Some editor_widget)]) = Map.empty"
proof -
  have r: "run [GenericProvider] [StartCommand (Some notebook_widget), StartCommand (Some editor_widget)] =
      snd (onStartCommand editor_widget [GenericProvider] searching_notebook)"
    using run_snoc [of "[GenericProvider]" "[StartCommand (Some notebook_widget)]"
        "StartCommand (Some editor_widget)"]
    by (simp add: run_start_notebook execute_startCommand_def)
  have g: "get_property (activeSearches searching_notebook) (widget_id editor_widget) = None"
    by (simp add: get_property_def)
  have p: "getProviderForWidget [GenericProvider] editor_widget = Some (new_provider GenericProvider)"
    by (simp add: GenericProvider_def)
  note c = onStartCommand_created [OF g p]
  show "activeSearches (run [GenericProvider]
      [StartCommand (Some notebook_widget), StartCommand (Some editor_widget)]) =
     [''notebook-1'' \<mapsto> 0, ''editor-2'' \<mapsto> 1]"
    by (simp add: r c)
  show "heap (run [GenericProvider]
      [StartCommand (Some notebook_widget), StartCommand (Some editor_widget)]) =
     [0 \<mapsto> created_instance notebook_widget (new_provider GenericProvider),
      1 \<mapsto> created_instance editor_widget (new_provider GenericProvider)]"
    by (simp add: r c)
  show "nextPromise (run [GenericProvider]
      [StartCommand (Some notebook_widget), StartCommand (Some editor_widget)]) = 0"
    by (simp add: r c)
  show "pendingOps (run [GenericProvider]
      [StartCommand (Some notebook_widget), StartCommand (Some editor_widget)]) = Map.empty"
    by (simp add: r c)
qed

lemma trace_run_start_next_resolve:
  "trace (run [GenericProvider]
      [StartCommand (Some notebook_widget), NextCommand (Some notebook_widget), Resolve 0]) =
   trace searching_notebook @
     [ReadDirectory ''notebook-1'', CalledHighlight Next 0 0, Settled 0, CalledUpdateIndices 0]"
proof -
  have a: "activeSearches searching_notebook (widget_id notebook_widget) = Some 0" by simp
  have "run [GenericProvider]
      [StartCommand (Some notebook_widget), NextCommand (Some notebook_widget), Resolve 0] =
    resolve_promise 0 (call_highlight Next 0 (emit (ReadDirectory ''notebook-1'') searching_notebook))"
    using run_snoc [of "[GenericProvider]" "[StartCommand (Some notebook_widget)]"
        "NextCommand (Some notebook_widget)"]
      run_snoc [of "[GenericProvider]"
        "[StartCommand (Some notebook_widget), NextCommand (Some notebook_widget)]" "Resolve 0"]
    by (simp add: run_start_notebook execute_nextCommand_def openBoxOrExecute_found [OF a]
          onNextCommand_def)
  then show ?thesis
    by (simp add: resolve_promise_def)
qed

lemma onStartCommand_constructor_widget:
  "execute_startCommand (Some constructor_widget) [] initial_state =
     (Raised TypeError,
      initial_state\<lparr>trace := [ReadDirectory ''constructor'', ReadDirectory ''constructor'']\<rparr>)"
  using onStartCommand_inherited_id [of constructor_widget "[]" "[]"]
  by (simp add: run_Nil execute_startCommand_def constructor_widget_def Object_prototype_keys_def
        emit_def initial_state_def)

section \<open>The registry\<close>

text \<open>
  Claim C6. For every document and every registry, \<^verbatim>\<open>getProviderForWidget\<close> returns a
  newly constructed provider of the first constructor, in registration order, whose
  \<^verbatim>\<open>canSearchOn\<close> is true of the document: the result is \<open>Some p\<close> exactly when there
  is a position \<open>i\<close> whose constructor accepts the document, no earlier position does,
  and \<open>p\<close> is the new provider of the constructor at \<open>i\<close>. It returns nothing exactly
  when no registered constructor accepts the document.
\<close>

theorem getProviderForWidget_first_match:
  "(getProviderForWidget registry w = Some p \<longleftrightarrow>
      (\<exists>i < length registry. canSearchOn (registry ! i) w \<and>
         (\<forall>j < i. \<not> canSearchOn (registry ! j) w) \<and> p = new_provider (registry ! i))) \<and>
   (getProviderForWidget registry w = None \<longleftrightarrow> (\<forall>c \<in> set registry. \<not> canSearchOn c w))"
  using getProviderForWidget_Some_iff getProviderForWidget_None_iff by blast

text \<open>
  With the specific class registered first it wins, with the general class first the
  general one wins, and a document nobody accepts gets no provider.
\<close>

theorem getProviderForWidget_first_match_witness:
  "getProviderForWidget [NotebookProvider, GenericProvider] notebook_widget = Some (new_provider NotebookProvider) \<and>
   getProviderForWidget [GenericProvider, NotebookProvider] notebook_widget = Some (new_provider GenericProvider) \<and>
   getProviderForWidget [NotebookProvider] editor_widget = None \<and>
   providerClass (new_provider NotebookProvider) \<noteq> providerClass (new_provider GenericProvider)"
proof -
  have a: "\<exists>i < length [NotebookProvider, GenericProvider].
      canSearchOn ([NotebookProvider, GenericProvider] ! i) notebook_widget \<and>
      (\<forall>j < i. \<not> canSearchOn ([NotebookProvider, GenericProvider] ! j) notebook_widget) \<and>
      new_provider NotebookProvider = new_provider ([NotebookProvider, GenericProvider] ! i)"
    by (intro exI [of _ 0]) (simp add: NotebookProvider_def notebook_widget_def)
  have b: "\<exists>i < length [GenericProvider, NotebookProvider].
      canSearchOn ([GenericProvider, NotebookProvider] ! i) notebook_widget \<and>
      (\<forall>j < i. \<not> canSearchOn ([GenericProvider, NotebookProvider] ! j) notebook_widget) \<and>
      new_provider GenericProvider = new_provider ([GenericProvider, NotebookProvider] ! i)"
    by (intro exI [of _ 0]) (simp add: GenericProvider_def)
  have c: "\<forall>c \<in> set [NotebookProvider]. \<not> canSearchOn c editor_widget"
    by (simp add: NotebookProvider_def editor_widget_def)
  from a b c
    getProviderForWidget_first_match [of "[NotebookProvider, GenericProvider]" notebook_widget "new_provider NotebookProvider"]
    getProviderForWidget_first_match [of "[GenericProvider, NotebookProvider]" notebook_widget "new_provider GenericProvider"]
    getProviderForWidget_first_match [of "[NotebookProvider]" editor_widget]
  show ?thesis
    by (simp add: new_provider_def NotebookProvider_def GenericProvider_def)
qed

section \<open>Commands without a current widget\<close>

text \<open>
  Claim C9. Each of the three commands, executed while the shell has no current widget,
  returns at once and leaves the whole state as it was. The trace is part of the state,
  so no effect took place: the directory was neither read nor written, the registry was
  not asked, and nothing was constructed.
\<close>

theorem no_current_widget_noop:
  "execute_startCommand None registry s = (Returned, s) \<and>
   execute_nextCommand None registry s = (Returned, s) \<and>
   execute_prevCommand None registry s = (Returned, s)"
  by (simp add: execute_startCommand_def execute_nextCommand_def execute_prevCommand_def)

section \<open>One search instance per document\<close>

text \<open>
  Claim C1. When start-search is invoked on a document whose id has an entry in the
  directory, the command returns normally after two reads of the directory and one call
  of \<^verbatim>\<open>focusInput\<close> on the registered instance: the directory is unchanged, no
  reference is allocated and the store holds the same instances, of which only the
  registered one changed, in its force-focus flag. And in every state a run of the
  extension reaches, two instances whose overlays are not disposed and whose documents
  have the same id are one and the same instance.
\<close>

theorem start_reuses_existing_instance:
  "(activeSearches s (widget_id w) = Some r \<longrightarrow>
      execute_startCommand (Some w) registry s =
        (Returned, focusInput r (emit (ReadDirectory (widget_id w))
                                   (emit (ReadDirectory (widget_id w)) s))) \<and>
      effects_since s (snd (execute_startCommand (Some w) registry s)) =
        [ReadDirectory (widget_id w), ReadDirectory (widget_id w), CalledFocusInput r] \<and>
      activeSearches (snd (execute_startCommand (Some w) registry s)) = activeSearches s \<and>
      nextRef (snd (execute_startCommand (Some w) registry s)) = nextRef s \<and>
      dom (heap (snd (execute_startCommand (Some w) registry s))) = dom (heap s) \<and>
      (\<forall>r'. heap (snd (execute_startCommand (Some w) registry s)) r' =
         (if r' = r
          then map_option (\<lambda>i. i\<lparr>displayState := (displayState i)\<lparr>forceFocus := True\<rparr>\<rparr>) (heap s r)
          else heap s r'))) \<and>
   (heap (run registry es) r1 = Some i1 \<and> heap (run registry es) r2 = Some i2 \<and>
    \<not> searchWidget_isDisposed i1 \<and> \<not> searchWidget_isDisposed i2 \<and>
    widget_id (widget i1) = widget_id (widget i2) \<longrightarrow> r1 = r2)"
proof (intro conjI impI)
  assume a: "activeSearches s (widget_id w) = Some r"
  note f = onStartCommand_found [OF a, of registry]
  show "execute_startCommand (Some w) registry s =
        (Returned, focusInput r (emit (ReadDirectory (widget_id w))
                                   (emit (ReadDirectory (widget_id w)) s)))"
    by (simp add: execute_startCommand_def f)
  show "effects_since s (snd (execute_startCommand (Some w) registry s)) =
        [ReadDirectory (widget_id w), ReadDirectory (widget_id w), CalledFocusInput r]"
    by (simp add: execute_startCommand_def f)
  show "activeSearches (snd (execute_startCommand (Some w) registry s)) = activeSearches s"
    by (simp add: execute_startCommand_def f)
  show "nextRef (snd (execute_startCommand (Some w) registry s)) = nextRef s"
    by (simp add: execute_startCommand_def f)
  show "dom (heap (snd (execute_startCommand (Some w) registry s))) = dom (heap s)"
    by (auto simp: execute_startCommand_def f dom_def)
  show "\<forall>r'. heap (snd (execute_startCommand (Some w) registry s)) r' =
         (if r' = r
          then map_option (\<lambda>i. i\<lparr>displayState := (displayState i)\<lparr>forceFocus := True\<rparr>\<rparr>) (heap s r)
          else heap s r')"
    by (simp add: execute_startCommand_def f)
next
  assume h: "heap (run registry es) r1 = Some i1 \<and> heap (run registry es) r2 = Some i2 \<and>
    \<not> searchWidget_isDisposed i1 \<and> \<not> searchWidget_isDisposed i2 \<and>
    widget_id (widget i1) = widget_id (widget i2)"
  let ?s = "run registry es"
  let ?k = "widget_id (widget i1)"
  have "skeleton ?s r1 = Some (?k, False, searchWidget_slots i1)"
    and "skeleton ?s r2 = Some (?k, False, searchWidget_slots i2)"
    using h by (simp_all add: skeleton_def)
  then have "activeSearches ?s ?k = Some r1" and "activeSearches ?s ?k = Some r2"
    using directory_invD1 [OF directory_inv_run] by blast+
  then show "r1 = r2" by simp
qed

text \<open>
  After a start-search on the notebook, a second start-search through another widget
  object with the same id finds instance 0, allocates nothing and keeps the entry.
\<close>

theorem start_reuses_existing_instance_witness:
  "activeSearches (run [GenericProvider] [StartCommand (Some notebook_widget)])
      (widget_id notebook_widget_again) = Some 0 \<and>
   notebook_widget_again \<noteq> notebook_widget \<and>
   fst (execute_startCommand (Some notebook_widget_again) [GenericProvider]
         (run [GenericProvider] [StartCommand (Some notebook_widget)])) = Returned \<and>
   activeSearches (snd (execute_startCommand (Some notebook_widget_again) [GenericProvider]
         (run [GenericProvider] [StartCommand (Some notebook_widget)]))) ''notebook-1'' = Some 0 \<and>
   nextRef (snd (execute_startCommand (Some notebook_widget_again) [GenericProvider]
         (run [GenericProvider] [StartCommand (Some notebook_widget)]))) = 1 \<and>
   heap (run [GenericProvider] [StartCommand (Some notebook_widget)]) 0 =
     Some (created_instance notebook_widget (new_provider GenericProvider)) \<and>
   \<not> searchWidget_isDisposed (created_instance notebook_widget (new_provider GenericProvider))"
proof -
  have a: "activeSearches (run [GenericProvider] [StartCommand (Some notebook_widget)])
      (widget_id notebook_widget_again) = Some 0"
    by (simp add: run_start_notebook searching_notebook_def notebook_widget_again_def)
  have b: "heap (run [GenericProvider] [StartCommand (Some notebook_widget)]) 0 =
     Some (created_instance notebook_widget (new_provider GenericProvider))"
    by (simp add: run_start_notebook searching_notebook_def)
  note t = start_reuses_existing_instance [of "run [GenericProvider] [StartCommand (Some notebook_widget)]"
      notebook_widget_again 0 "[GenericProvider]" "[StartCommand (Some notebook_widget)]" 0
      "created_instance notebook_widget (new_provider GenericProvider)" 0
      "created_instance notebook_widget (new_provider GenericProvider)"]
  from a b t show ?thesis
    unfolding run_start_notebook
    by (simp add: searching_notebook_def notebook_widget_again_def
          notebook_widget_def created_instance_def)
qed

section \<open>No applicable provider\<close>

text \<open>
  Claim C4. If, during start-search on a document, \<^verbatim>\<open>getProviderForWidget\<close> is called
  for it and returns nothing, the command returns normally and is a no-op: the state
  after it differs from the state before only in the trace, which records the read of the
  directory and the call of the registry. No instance is constructed and the directory is
  in its prior state.
\<close>

theorem no_provider_is_noop:
  "CalledGetProviderForWidget w None \<in>
     set (effects_since s (snd (execute_startCommand (Some w) registry s))) \<Longrightarrow>
   execute_startCommand (Some w) registry s =
     (Returned, s\<lparr>trace := trace s @ [ReadDirectory (widget_id w),
                                        CalledGetProviderForWidget w None]\<rparr>) \<and>
   activeSearches (snd (execute_startCommand (Some w) registry s)) = activeSearches s \<and>
   heap (snd (execute_startCommand (Some w) registry s)) = heap s \<and>
   nextRef (snd (execute_startCommand (Some w) registry s)) = nextRef s"
proof -
  assume "CalledGetProviderForWidget w None \<in>
     set (effects_since s (snd (execute_startCommand (Some w) registry s)))"
  then have "get_property (activeSearches s) (widget_id w) = None"
    and "getProviderForWidget registry w = None"
    by (simp_all add: execute_startCommand_def registry_answer_logged_iff)
  then have "onStartCommand w registry s =
      (Returned, emit (CalledGetProviderForWidget w None) (emit (ReadDirectory (widget_id w)) s))"
    by (rule onStartCommand_no_provider)
  then show ?thesis
    by (simp add: execute_startCommand_def emit_def)
qed

text \<open>
  The editor has no applicable provider when only the notebook's class is registered:
  start-search on it right after activation asks the registry, gets nothing, and leaves
  the initial state with two trace entries.
\<close>

theorem no_provider_is_noop_witness:
  "CalledGetProviderForWidget editor_widget None \<in>
     set (effects_since initial_state
            (snd (execute_startCommand (Some editor_widget) [NotebookProvider] initial_state))) \<and>
   execute_startCommand (Some editor_widget) [NotebookProvider] initial_state =
     (Returned, initial_state\<lparr>trace := [ReadDirectory ''editor-2'',
                                          CalledGetProviderForWidget editor_widget None]\<rparr>)"
proof -
  have g: "get_property (activeSearches initial_state) (widget_id editor_widget) = None"
    by (simp add: get_property_def initial_state_def editor_widget_def)
  have p: "getProviderForWidget [NotebookProvider] editor_widget = None"
    by (simp add: NotebookProvider_def editor_widget_def)
  have h: "CalledGetProviderForWidget editor_widget None \<in>
     set (effects_since initial_state
            (snd (execute_startCommand (Some editor_widget) [NotebookProvider] initial_state)))"
    using g p registry_answer_logged_iff [of editor_widget None initial_state "[NotebookProvider]"]
    by (simp add: execute_startCommand_def)
  from h no_provider_is_noop [OF h] show ?thesis
    by (simp add: initial_state_def editor_widget_def)
qed

section \<open>Registration is guarded by the lookup\<close>

text \<open>
  Claim C7, as stated, fails. Storing an instance is the plain assignment
  \<^verbatim>\<open>activeSearches[widgetId] = searchInstance\<close>: under an id that has an entry it
  replaces the entry, silently. The only place that stores is \<^verbatim>\<open>onStartCommand\<close>,
  after its lookup found nothing; a start-search on an id that has an entry is not
  reported as a violation either: it returns normally, its only effects are two reads of
  the directory and the refocus, and the entry stays.
\<close>

theorem register_existing_reports_nothing:
  "activeSearches searching_notebook (widget_id notebook_widget) = Some 0 \<and>
   set_property (activeSearches searching_notebook) (widget_id notebook_widget) 5 =
     [''notebook-1'' \<mapsto> 5] \<and>
   fst (execute_startCommand (Some notebook_widget) [GenericProvider] searching_notebook) = Returned \<and>
   effects_since searching_notebook
     (snd (execute_startCommand (Some notebook_widget) [GenericProvider] searching_notebook)) =
     [ReadDirectory ''notebook-1'', ReadDirectory ''notebook-1'', CalledFocusInput 0] \<and>
   activeSearches
     (snd (execute_startCommand (Some notebook_widget) [GenericProvider] searching_notebook)) =
     activeSearches searching_notebook"
proof -
  have a: "activeSearches searching_notebook (widget_id notebook_widget) = Some 0"
    by (simp add: searching_notebook_def notebook_widget_def)
  show ?thesis
    using a by (simp add: execute_startCommand_def onStartCommand_found [OF a] set_property_def)
qed

text \<open>
  Claim C7, amended. The assignment that registers an instance checks nothing: it
  stores the instance under the id whether or not the id had an entry. Start-search
  guards it by the lookup and so never replaces an entry: on an id that has an entry it
  returns normally and leaves the directory as it is, and nothing is reported. When the
  lookup of the id finds nothing and the registry supplies a provider, it returns
  normally, the directory gains exactly the entry from that id to the fresh instance, and
  the store gains exactly that instance.
\<close>

theorem start_registers_only_when_absent:
  "(k \<noteq> ''__proto__'' \<longrightarrow> set_property m k r' = m(k \<mapsto> r')) \<and>
   (activeSearches s (widget_id w) = Some r \<longrightarrow>
      fst (execute_startCommand (Some w) registry s) = Returned \<and>
      activeSearches (snd (execute_startCommand (Some w) registry s)) = activeSearches s) \<and>
   (get_property (activeSearches s) (widget_id w) = None \<and>
    getProviderForWidget registry w = Some p \<longrightarrow>
      fst (execute_startCommand (Some w) registry s) = Returned \<and>
      activeSearches (snd (execute_startCommand (Some w) registry s)) =
        (activeSearches s)(widget_id w \<mapsto> nextRef s) \<and>
      heap (snd (execute_startCommand (Some w) registry s)) =
        (heap s)(nextRef s \<mapsto> created_instance w p))"
proof (intro conjI impI)
  assume "k \<noteq> ''__proto__''"
  then show "set_property m k r' = m(k \<mapsto> r')"
    by (simp add: set_property_def)
next
  assume a: "activeSearches s (widget_id w) = Some r"
  show "fst (execute_startCommand (Some w) registry s) = Returned"
    by (simp add: execute_startCommand_def onStartCommand_found [OF a])
  show "activeSearches (snd (execute_startCommand (Some w) registry s)) = activeSearches s"
    by (simp add: execute_startCommand_def onStartCommand_found [OF a])
next
  assume h: "get_property (activeSearches s) (widget_id w) = None \<and>
    getProviderForWidget registry w = Some p"
  then have g: "get_property (activeSearches s) (widget_id w) = None"
    and q: "getProviderForWidget registry w = Some p" by simp_all
  note c = onStartCommand_created [OF g q]
  show "fst (execute_startCommand (Some w) registry s) = Returned"
    by (simp add: execute_startCommand_def c)
  show "activeSearches (snd (execute_startCommand (Some w) registry s)) =
        (activeSearches s)(widget_id w \<mapsto> nextRef s)"
    by (simp add: execute_startCommand_def c)
  show "heap (snd (execute_startCommand (Some w) registry s)) =
        (heap s)(nextRef s \<mapsto> created_instance w p)"
    by (simp add: execute_startCommand_def c)
qed

text \<open>
  Both cases occur: the notebook is registered by the first start-search from the
  initial state, and a further start-search on it keeps the entry.
\<close>

theorem start_registers_only_when_absent_witness:
  "''notebook-1'' \<noteq> ''__proto__'' \<and>
   set_property [''notebook-1'' \<mapsto> 0] ''notebook-1'' 5 = [''notebook-1'' \<mapsto> 5] \<and>
   get_property (activeSearches initial_state) (widget_id notebook_widget) = None \<and>
   getProviderForWidget [GenericProvider] notebook_widget = Some (new_provider GenericProvider) \<and>
   activeSearches (snd (execute_startCommand (Some notebook_widget) [GenericProvider] initial_state)) =
     [''notebook-1'' \<mapsto> 0] \<and>
   heap (snd (execute_startCommand (Some notebook_widget) [GenericProvider] initial_state)) 0 =
     Some (created_instance notebook_widget (new_provider GenericProvider)) \<and>
   activeSearches searching_notebook (widget_id notebook_widget) = Some 0 \<and>
   activeSearches (snd (execute_startCommand (Some notebook_widget) [GenericProvider] searching_notebook)) =
     activeSearches searching_notebook"
proof -
  have a: "activeSearches searching_notebook (widget_id notebook_widget) = Some 0"
    by (simp add: searching_notebook_def notebook_widget_def)
  have p: "getProviderForWidget [GenericProvider] notebook_widget = Some (new_provider GenericProvider)"
    by (simp add: GenericProvider_def)
  note g = get_property_initial_notebook
  from a p g
    start_registers_only_when_absent [of "''notebook-1''" "[''notebook-1'' \<mapsto> 0]" 5
      searching_notebook notebook_widget 0 "[GenericProvider]"]
    start_registers_only_when_absent [of "''notebook-1''" "[''notebook-1'' \<mapsto> 0]" 5
      initial_state notebook_widget 0 "[GenericProvider]" "new_provider GenericProvider"]
  show ?thesis
    by (simp add: initial_state_def notebook_widget_def)
qed

section \<open>Next and previous\<close>

text \<open>
  Claim C3, as stated, fails in the newly-created case. Next-match on a document that has
  no instance yet, with an applicable provider registered: the instance is created,
  registered and focused, and that is all. No provider operation is called, none is
  pending, and \<^verbatim>\<open>updateIndices\<close> is not scheduled.
\<close>

theorem next_on_new_document_does_not_navigate:
  "fst (execute_nextCommand (Some notebook_widget) [GenericProvider] initial_state) = Returned \<and>
   trace (snd (execute_nextCommand (Some notebook_widget) [GenericProvider] initial_state)) =
     [ReadDirectory ''notebook-1'', ReadDirectory ''notebook-1'',
      CalledGetProviderForWidget notebook_widget (Some ''GenericProvider''),
      ConstructedInstance 0, WroteDirectory ''notebook-1'' 0,
      ConnectedDisposed 0 ''notebook-1'', AttachedOverlay 0 7, CalledFocusInput 0] \<and>
   pendingOps (snd (execute_nextCommand (Some notebook_widget) [GenericProvider] initial_state)) =
     Map.empty \<and>
   activeSearches (snd (execute_nextCommand (Some notebook_widget) [GenericProvider] initial_state))
     ''notebook-1'' = Some 0"
proof -
  have p: "getProviderForWidget [GenericProvider] notebook_widget = Some (new_provider GenericProvider)"
    by (simp add: GenericProvider_def)
  have g: "get_property (activeSearches (emit (ReadDirectory ''notebook-1'') initial_state))
             (widget_id notebook_widget) = None"
    using get_property_initial_notebook by simp
  note c = onStartCommand_created [OF g p]
  show ?thesis
    by (simp add: execute_nextCommand_def openBoxOrExecute_undefined [OF get_property_initial_notebook] c)
qed

text \<open>
  Claim C3, amended. Highlight-next and highlight-previous look the document's id up in
  the directory. When an instance is registered, the navigation command is executed on
  that instance: the provider operation is called and recorded as pending for it. When
  the lookup finds nothing, the command does what start-search does (creating and
  registering an instance through the registry when a provider applies) and no navigation
  takes place: the pending operations are as before.
\<close>

theorem navigation_opens_box_or_executes:
  "(activeSearches s (widget_id w) = Some r \<longrightarrow>
      execute_nextCommand (Some w) registry s =
        (Returned, call_highlight Next r (emit (ReadDirectory (widget_id w)) s)) \<and>
      execute_prevCommand (Some w) registry s =
        (Returned, call_highlight Previous r (emit (ReadDirectory (widget_id w)) s)) \<and>
      pendingOps (snd (execute_nextCommand (Some w) registry s)) (nextPromise s) = Some (r, Next) \<and>
      pendingOps (snd (execute_prevCommand (Some w) registry s)) (nextPromise s) = Some (r, Previous)) \<and>
   (get_property (activeSearches s) (widget_id w) = None \<longrightarrow>
      execute_nextCommand (Some w) registry s =
        execute_startCommand (Some w) registry (emit (ReadDirectory (widget_id w)) s) \<and>
      execute_prevCommand (Some w) registry s =
        execute_startCommand (Some w) registry (emit (ReadDirectory (widget_id w)) s) \<and>
      pendingOps (snd (execute_nextCommand (Some w) registry s)) = pendingOps s \<and>
      pendingOps (snd (execute_prevCommand (Some w) registry s)) = pendingOps s)"
proof (intro conjI impI)
  assume a: "activeSearches s (widget_id w) = Some r"
  show "execute_nextCommand (Some w) registry s =
        (Returned, call_highlight Next r (emit (ReadDirectory (widget_id w)) s))"
    by (simp add: execute_nextCommand_def openBoxOrExecute_found [OF a] onNextCommand_def)
  show "execute_prevCommand (Some w) registry s =
        (Returned, call_highlight Previous r (emit (ReadDirectory (widget_id w)) s))"
    by (simp add: execute_prevCommand_def openBoxOrExecute_found [OF a] onPrevCommand_def)
  show "pendingOps (snd (execute_nextCommand (Some w) registry s)) (nextPromise s) = Some (r, Next)"
    by (simp add: execute_nextCommand_def openBoxOrExecute_found [OF a] onNextCommand_def)
  show "pendingOps (snd (execute_prevCommand (Some w) registry s)) (nextPromise s) = Some (r, Previous)"
    by (simp add: execute_prevCommand_def openBoxOrExecute_found [OF a] onPrevCommand_def)
next
  assume g: "get_property (activeSearches s) (widget_id w) = None"
  show "execute_nextCommand (Some w) registry s =
        execute_startCommand (Some w) registry (emit (ReadDirectory (widget_id w)) s)"
    by (simp add: execute_nextCommand_def execute_startCommand_def openBoxOrExecute_undefined [OF g])
  show "execute_prevCommand (Some w) registry s =
        execute_startCommand (Some w) registry (emit (ReadDirectory (widget_id w)) s)"
    by (simp add: execute_prevCommand_def execute_startCommand_def openBoxOrExecute_undefined [OF g])
  show "pendingOps (snd (execute_nextCommand (Some w) registry s)) = pendingOps s"
    by (simp add: execute_nextCommand_def openBoxOrExecute_undefined [OF g])
  show "pendingOps (snd (execute_prevCommand (Some w) registry s)) = pendingOps s"
    by (simp add: execute_prevCommand_def openBoxOrExecute_undefined [OF g])
qed

text \<open>
  Both cases occur: on the notebook once its instance exists, next-match starts the
  provider operation as promise 0; on the notebook right after activation it does not.
\<close>

theorem navigation_opens_box_or_executes_witness:
  "activeSearches searching_notebook (widget_id notebook_widget) = Some 0 \<and>
   pendingOps (snd (execute_nextCommand (Some notebook_widget) [GenericProvider] searching_notebook)) 0 =
     Some (0, Next) \<and>
   pendingOps (snd (execute_prevCommand (Some notebook_widget) [GenericProvider] searching_notebook)) 0 =
     Some (0, Previous) \<and>
   get_property (activeSearches initial_state) (widget_id notebook_widget) = None \<and>
   pendingOps (snd (execute_nextCommand (Some notebook_widget) [GenericProvider] initial_state)) =
     Map.empty \<and>
   pendingOps (snd (execute_prevCommand (Some notebook_widget) [GenericProvider] initial_state)) =
     Map.empty"
proof -
  have a: "activeSearches searching_notebook (widget_id notebook_widget) = Some 0"
    by (simp add: searching_notebook_def notebook_widget_def)
  note g = get_property_initial_notebook
  from a g
    navigation_opens_box_or_executes [of searching_notebook notebook_widget 0 "[GenericProvider]"]
    navigation_opens_box_or_executes [of initial_state notebook_widget 0 "[GenericProvider]"]
  show ?thesis
    by (simp add: execute_startCommand_def)
qed

section \<open>Navigation awaits the provider\<close>

text \<open>
  Claim C5. The next-match and previous-match commands call the provider's
  \<^verbatim>\<open>highlightNext\<close> or \<^verbatim>\<open>highlightPrevious\<close> and suspend: the call leaves every instance,
  and so every display state, as it is, and records the operation as pending. Only when
  the promise resolves is the display state of the instance resynchronised, from the
  provider as the completed operation left it; when it is rejected, nothing is updated.
  And in the trace of every run, each call of \<^verbatim>\<open>updateIndices\<close> on an instance comes
  directly after the settlement of a promise returned by an earlier provider call on that
  instance.
\<close>

theorem indices_updated_after_provider_settles:
  "onNextCommand (InstanceRef r) s = call_highlight Next r s \<and>
   onPrevCommand (InstanceRef r) s = call_highlight Previous r s \<and>
   heap (call_highlight op r s) = heap s \<and>
   effects_since s (call_highlight op r s) = [CalledHighlight op r (nextPromise s)] \<and>
   pendingOps (call_highlight op r s) (nextPromise s) = Some (r, op) \<and>
   (pendingOps s p = Some (r, op) \<and> heap s r = Some i \<longrightarrow>
      effects_since s (resolve_promise p s) = [Settled p, CalledUpdateIndices r] \<and>
      pendingOps (resolve_promise p s) p = None \<and>
      heap (resolve_promise p s) r =
        Some (i\<lparr>provider := provider_operation op (provider i),
                displayState := (displayState i)
                  \<lparr>totalMatches := length (matches (provider_operation op (provider i))),
                   currentIndex := currentMatchIndex (provider_operation op (provider i))\<rparr>\<rparr>)) \<and>
   (pendingOps s p = Some (r, op) \<longrightarrow>
      heap (reject_promise p s) = heap s \<and>
      effects_since s (reject_promise p s) = [Rejected p]) \<and>
   (trace (run registry es) = before @ CalledUpdateIndices r # after \<longrightarrow>
      (\<exists>p op earlier. before = earlier @ [Settled p] \<and> CalledHighlight op r p \<in> set earlier))"
proof (intro conjI impI)
  show "onNextCommand (InstanceRef r) s = call_highlight Next r s"
    by (simp add: onNextCommand_def)
  show "onPrevCommand (InstanceRef r) s = call_highlight Previous r s"
    by (simp add: onPrevCommand_def)
  show "heap (call_highlight op r s) = heap s" by simp
  show "effects_since s (call_highlight op r s) = [CalledHighlight op r (nextPromise s)]" by simp
  show "pendingOps (call_highlight op r s) (nextPromise s) = Some (r, op)" by simp
next
  assume h: "pendingOps s p = Some (r, op) \<and> heap s r = Some i"
  then show "effects_since s (resolve_promise p s) = [Settled p, CalledUpdateIndices r]"
    by (simp add: resolve_promise_def)
  from h show "pendingOps (resolve_promise p s) p = None"
    by (simp add: resolve_promise_def)
  from h show "heap (resolve_promise p s) r =
        Some (i\<lparr>provider := provider_operation op (provider i),
                displayState := (displayState i)
                  \<lparr>totalMatches := length (matches (provider_operation op (provider i))),
                   currentIndex := currentMatchIndex (provider_operation op (provider i))\<rparr>\<rparr>)"
    by (simp add: resolve_promise_def)
next
  assume h: "pendingOps s p = Some (r, op)"
  then show "heap (reject_promise p s) = heap s" by (simp add: reject_promise_def)
  from h show "effects_since s (reject_promise p s) = [Rejected p]" by (simp add: reject_promise_def)
next
  assume t: "trace (run registry es) = before @ CalledUpdateIndices r # after"
  have "updates_follow_settlement [] (trace (run registry es))"
    using trace_inv_run [of registry es] by (simp add: trace_inv_def)
  with t have "update_allowed before r"
    by (simp add: updates_follow_settlement_append)
  then show "\<exists>p op earlier. before = earlier @ [Settled p] \<and> CalledHighlight op r p \<in> set earlier"
    by (rule update_allowedD)
qed

text \<open>
  On the example with two matches: next-match is called and its promise 0 is pending while
  the display still shows no current match; when the promise resolves the display shows
  match 0 of 2. In the run start, next, resolve from activation, the call of
  \<^verbatim>\<open>updateIndices\<close> is the last effect, right after the settlement of promise 0.
\<close>

theorem indices_updated_after_provider_settles_witness:
  "pendingOps (call_highlight Next 0 searching_with_matches) 0 = Some (0, Next) \<and>
   heap (call_highlight Next 0 searching_with_matches) 0 = Some notebook_instance_with_matches \<and>
   currentIndex (displayState notebook_instance_with_matches) = None \<and>
   map_option (\<lambda>i. (currentIndex (displayState i), totalMatches (displayState i),
                      currentMatchIndex (provider i)))
     (heap (resolve_promise 0 (call_highlight Next 0 searching_with_matches)) 0) =
     Some (Some 0, 2, Some 0) \<and>
   heap (reject_promise 0 (call_highlight Next 0 searching_with_matches)) 0 =
     Some notebook_instance_with_matches \<and>
   trace (run [GenericProvider]
      [StartCommand (Some notebook_widget), NextCommand (Some notebook_widget), Resolve 0]) =
     (trace searching_notebook @ [ReadDirectory ''notebook-1'', CalledHighlight Next 0 0, Settled 0]) @
       CalledUpdateIndices 0 # [] \<and>
   CalledHighlight Next 0 0 \<in>
     set (trace searching_notebook @ [ReadDirectory ''notebook-1'', CalledHighlight Next 0 0])"
proof -
  let ?s = "call_highlight Next 0 searching_with_matches"
  have n: "nextPromise searching_with_matches = 0"
    "heap searching_with_matches 0 = Some notebook_instance_with_matches"
    by (simp_all add: searching_with_matches_def searching_notebook_def)
  have p: "pendingOps ?s 0 = Some (0, Next)" "heap ?s 0 = Some notebook_instance_with_matches"
    using n by simp_all
  have t: "trace (run [GenericProvider]
      [StartCommand (Some notebook_widget), NextCommand (Some notebook_widget), Resolve 0]) =
     (trace searching_notebook @ [ReadDirectory ''notebook-1'', CalledHighlight Next 0 0, Settled 0]) @
       CalledUpdateIndices 0 # []"
    by (simp add: trace_run_start_next_resolve)
  note c = indices_updated_after_provider_settles [of 0 ?s Next 0 notebook_instance_with_matches
      "[GenericProvider]"
      "[StartCommand (Some notebook_widget), NextCommand (Some notebook_widget), Resolve 0]"
      "trace searching_notebook @ [ReadDirectory ''notebook-1'', CalledHighlight Next 0 0, Settled 0]"
      "[]"]
  have r1: "heap (resolve_promise 0 ?s) 0 =
      Some (notebook_instance_with_matches
        \<lparr>provider := provider_operation Next (provider notebook_instance_with_matches),
         displayState := (displayState notebook_instance_with_matches)
           \<lparr>totalMatches := length (matches (provider_operation Next (provider notebook_instance_with_matches))),
            currentIndex := currentMatchIndex (provider_operation Next (provider notebook_instance_with_matches))\<rparr>\<rparr>)"
    using c p by simp
  have r2: "heap (reject_promise 0 ?s) 0 = Some notebook_instance_with_matches"
    using c p by simp
  have v: "highlightNext (provider notebook_instance_with_matches) =
      \<lparr>providerClass = ''GenericProvider'', matches = foo_matches, currentMatchIndex = Some 0\<rparr>"
    "length foo_matches = 2"
    by (simp_all add: notebook_instance_with_matches_def highlightNext_def foo_matches_def)
  have d: "currentIndex (displayState notebook_instance_with_matches) = None"
    by (simp add: notebook_instance_with_matches_def initial_displayState_def)
  from p t d show ?thesis
    by (simp add: r1 r2 v)
qed

section \<open>Entries leave the directory on disposal only\<close>

text \<open>
  Claim C2. In every state a run reaches, disposing the overlay of the instance registered
  under a document id removes that entry, so that the lookup of the id finds nothing, and
  leaves every other entry alone. An entry is removed by nothing else: every event that
  is not a disposal keeps every entry, and the disposal of another instance's overlay
  keeps it too. Once removed, the entry stays absent under every event that is not a
  command executed on a widget with that id.
\<close>

theorem entry_removed_exactly_on_disposal:
  "(activeSearches (run registry es) k = Some r \<longrightarrow>
      activeSearches (dispose_searchWidget r (run registry es)) k = None \<and>
      get_property (activeSearches (dispose_searchWidget r (run registry es))) k = None \<and>
      (\<forall>k'. k' \<noteq> k \<longrightarrow>
         activeSearches (dispose_searchWidget r (run registry es)) k' =
         activeSearches (run registry es) k')) \<and>
   (activeSearches s k = Some r \<and> \<not> is_disposal e \<longrightarrow>
      activeSearches (step registry s e) k = Some r) \<and>
   (activeSearches (run registry es) k = Some r \<and> r' \<noteq> r \<longrightarrow>
      activeSearches (dispose_searchWidget r' (run registry es)) k = Some r) \<and>
   (activeSearches s k = None \<and> \<not> command_on k e \<longrightarrow>
      activeSearches (step registry s e) k = None)"
proof (intro conjI impI)
  assume a: "activeSearches (run registry es) k = Some r"
  from registered_instance [OF a] obtain i where i: "heap (run registry es) r = Some i"
    "\<not> searchWidget_isDisposed i" "widget_id (widget i) = k" "k \<notin> set Object_prototype_keys"
    by blast
  note d = activeSearches_dispose_reachable [OF i(1)]
  show n: "activeSearches (dispose_searchWidget r (run registry es)) k = None"
    using i by (simp add: d)
  show "get_property (activeSearches (dispose_searchWidget r (run registry es))) k = None"
    using n i(4) by (simp add: get_property_None_iff)
  show "\<forall>k'. k' \<noteq> k \<longrightarrow>
         activeSearches (dispose_searchWidget r (run registry es)) k' =
         activeSearches (run registry es) k'"
    using i by (simp add: d)
next
  assume "activeSearches s k = Some r \<and> \<not> is_disposal e"
  then show "activeSearches (step registry s e) k = Some r"
    by (simp add: entry_kept_by_step)
next
  assume a: "activeSearches (run registry es) k = Some r \<and> r' \<noteq> r"
  show "activeSearches (dispose_searchWidget r' (run registry es)) k = Some r"
  proof (cases "heap (run registry es) r'")
    case None
    with a show ?thesis by (simp add: dispose_searchWidget_idle)
  next
    case (Some i')
    show ?thesis
    proof (cases "searchWidget_isDisposed i'")
      case True
      with a Some show ?thesis by (simp add: activeSearches_dispose_reachable [OF Some])
    next
      case False
      from stored_instance(2) [OF Some False] a have "widget_id (widget i') \<noteq> k" by auto
      with a False show ?thesis by (simp add: activeSearches_dispose_reachable [OF Some])
    qed
  qed
next
  assume "activeSearches s k = None \<and> \<not> command_on k e"
  then show "activeSearches (step registry s e) k = None"
    by (simp add: absence_kept_by_step)
qed

text \<open>
  With searches open on the notebook and on the editor: disposing the notebook's overlay
  removes the notebook's entry and keeps the editor's; a next-match on the editor keeps
  the notebook's entry; disposing the editor's overlay keeps the notebook's entry; and
  after activation a start-search on the editor leaves the notebook without an entry.
\<close>

theorem entry_removed_exactly_on_disposal_witness:
  "activeSearches (run [GenericProvider]
      [StartCommand (Some notebook_widget), StartCommand (Some editor_widget)]) ''notebook-1'' = Some 0 \<and>
   activeSearches (dispose_searchWidget 0 (run [GenericProvider]
      [StartCommand (Some notebook_widget), StartCommand (Some editor_widget)])) ''notebook-1'' = None \<and>
   activeSearches (dispose_searchWidget 0 (run [GenericProvider]
      [StartCommand (Some notebook_widget), StartCommand (Some editor_widget)])) ''editor-2'' = Some 1 \<and>
   \<not> is_disposal (NextCommand (Some editor_widget)) \<and>
   activeSearches (step [GenericProvider] (run [GenericProvider]
      [StartCommand (Some notebook_widget), StartCommand (Some editor_widget)])
      (NextCommand (Some editor_widget))) ''notebook-1'' = Some 0 \<and>
   activeSearches (dispose_searchWidget 1 (run [GenericProvider]
      [StartCommand (Some notebook_widget), StartCommand (Some editor_widget)])) ''notebook-1'' = Some 0 \<and>
   activeSearches initial_state ''notebook-1'' = None \<and>
   \<not> command_on ''notebook-1'' (StartCommand (Some editor_widget)) \<and>
   activeSearches (step [GenericProvider] initial_state (StartCommand (Some editor_widget)))
     ''notebook-1'' = None"
proof -
  let ?s = "run [GenericProvider]
      [StartCommand (Some notebook_widget), StartCommand (Some editor_widget)]"
  have a: "activeSearches ?s ''notebook-1'' = Some 0"
    by (simp add: run_start_notebook_then_editor)
  have b: "activeSearches ?s ''editor-2'' = Some 1"
    by (simp add: run_start_notebook_then_editor)
  note t1 = entry_removed_exactly_on_disposal [of "[GenericProvider]"
      "[StartCommand (Some notebook_widget), StartCommand (Some editor_widget)]"
      "''notebook-1''" 0 ?s "NextCommand (Some editor_widget)" 1]
  note t2 = entry_removed_exactly_on_disposal [of "[GenericProvider]" "[]"
      "''notebook-1''" 0 initial_state "StartCommand (Some editor_widget)" 1]
  have n: "\<not> is_disposal (NextCommand (Some editor_widget))"
    "\<not> command_on ''notebook-1'' (StartCommand (Some editor_widget))"
    "activeSearches initial_state ''notebook-1'' = None"
    by simp_all
  have e: "activeSearches (dispose_searchWidget 0 ?s) ''editor-2'' = activeSearches ?s ''editor-2''"
    using t1 a by simp
  from a b n t1 t2 e show ?thesis
    by simp
qed

section \<open>Document identity is the widget id\<close>

text \<open>
  Claim C10. The directory is keyed by the widget's id. Each of the three commands looks
  up the id of the widget it is executed on and nothing else: when that id has an entry,
  start-search refocuses the instance registered under it and next-match and
  previous-match call the provider operation on that instance, which becomes the pending
  operation; when the lookup of that id finds nothing, next-match and previous-match do
  what start-search does and no operation becomes pending on any instance; when it finds
  an inherited member, no instance is touched. So once an id has an entry, each command
  does exactly the same on any two widgets with that id, and an instance created by a
  start-search on one widget is the one the directory resolves for every widget with an
  equal id. In every reachable state the entries of two different ids are two different
  instances. A command on a widget leaves the entries of all other ids as they are. In
  every reachable state, disposing the overlay of an instance leaves the entries of all
  ids other than the id of its document as they are, and removes the entry of that id if
  the overlay was not yet disposed.
\<close>

theorem directory_keyed_by_widget_id:
  "(activeSearches s (widget_id w) = Some r \<longrightarrow>
      execute_startCommand (Some w) registry s =
        (Returned, focusInput r (emit (ReadDirectory (widget_id w))
                                   (emit (ReadDirectory (widget_id w)) s))) \<and>
      execute_nextCommand (Some w) registry s =
        (Returned, call_highlight Next r (emit (ReadDirectory (widget_id w)) s)) \<and>
      execute_prevCommand (Some w) registry s =
        (Returned, call_highlight Previous r (emit (ReadDirectory (widget_id w)) s)) \<and>
      pendingOps (snd (execute_nextCommand (Some w) registry s)) =
        (pendingOps s)(nextPromise s \<mapsto> (r, Next)) \<and>
      pendingOps (snd (execute_prevCommand (Some w) registry s)) =
        (pendingOps s)(nextPromise s \<mapsto> (r, Previous))) \<and>
   (get_property (activeSearches s) (widget_id w) = None \<longrightarrow>
      execute_nextCommand (Some w) registry s =
        execute_startCommand (Some w) registry (emit (ReadDirectory (widget_id w)) s) \<and>
      execute_prevCommand (Some w) registry s =
        execute_startCommand (Some w) registry (emit (ReadDirectory (widget_id w)) s) \<and>
      pendingOps (snd (execute_startCommand (Some w) registry s)) = pendingOps s \<and>
      pendingOps (snd (execute_nextCommand (Some w) registry s)) = pendingOps s \<and>
      pendingOps (snd (execute_prevCommand (Some w) registry s)) = pendingOps s) \<and>
   (get_property (activeSearches s) (widget_id w) = Some InheritedMember \<longrightarrow>
      execute_startCommand (Some w) registry s =
        (Raised TypeError, emit (ReadDirectory (widget_id w)) (emit (ReadDirectory (widget_id w)) s)) \<and>
      execute_nextCommand (Some w) registry s =
        (Returned, emit (AsyncRejected TypeError) (emit (ReadDirectory (widget_id w)) s)) \<and>
      execute_prevCommand (Some w) registry s =
        (Returned, emit (AsyncRejected TypeError) (emit (ReadDirectory (widget_id w)) s))) \<and>
   (activeSearches (run registry es) k1 = Some r1 \<and> activeSearches (run registry es) k2 = Some r2 \<and>
    k1 \<noteq> k2 \<longrightarrow> r1 \<noteq> r2) \<and>
   (widget_id w1 = widget_id w2 \<and> activeSearches s (widget_id w1) = Some r \<longrightarrow>
      execute_startCommand (Some w1) registry s = execute_startCommand (Some w2) registry s \<and>
      execute_nextCommand (Some w1) registry s = execute_nextCommand (Some w2) registry s \<and>
      execute_prevCommand (Some w1) registry s = execute_prevCommand (Some w2) registry s \<and>
      get_property (activeSearches s) (widget_id w2) = Some (InstanceRef r)) \<and>
   (widget_id w1 = widget_id w2 \<and> get_property (activeSearches s) (widget_id w1) = None \<and>
    getProviderForWidget registry w1 = Some p \<longrightarrow>
      get_property (activeSearches (snd (execute_startCommand (Some w1) registry s))) (widget_id w2) =
        Some (InstanceRef (nextRef s)) \<and>
      heap (snd (execute_startCommand (Some w1) registry s)) (nextRef s) =
        Some (created_instance w1 p)) \<and>
   (widget_id w \<noteq> k \<longrightarrow>
      activeSearches (snd (execute_startCommand (Some w) registry s)) k = activeSearches s k \<and>
      activeSearches (snd (execute_nextCommand (Some w) registry s)) k = activeSearches s k \<and>
      activeSearches (snd (execute_prevCommand (Some w) registry s)) k = activeSearches s k) \<and>
   (heap (run registry es) r = Some i \<and> widget_id (widget i) \<noteq> k \<longrightarrow>
      activeSearches (dispose_searchWidget r (run registry es)) k = activeSearches (run registry es) k) \<and>
   (heap (run registry es) r = Some i \<and> \<not> searchWidget_isDisposed i \<longrightarrow>
      activeSearches (run registry es) (widget_id (widget i)) = Some r \<and>
      activeSearches (dispose_searchWidget r (run registry es)) (widget_id (widget i)) = None)"
proof (intro conjI impI)
  assume a: "activeSearches s (widget_id w) = Some r"
  show "execute_startCommand (Some w) registry s =
        (Returned, focusInput r (emit (ReadDirectory (widget_id w))
                                   (emit (ReadDirectory (widget_id w)) s)))"
    by (simp add: execute_startCommand_def onStartCommand_found [OF a])
  show "execute_nextCommand (Some w) registry s =
        (Returned, call_highlight Next r (emit (ReadDirectory (widget_id w)) s))"
    by (simp add: execute_nextCommand_def openBoxOrExecute_found [OF a] onNextCommand_def)
  show "execute_prevCommand (Some w) registry s =
        (Returned, call_highlight Previous r (emit (ReadDirectory (widget_id w)) s))"
    by (simp add: execute_prevCommand_def openBoxOrExecute_found [OF a] onPrevCommand_def)
  show "pendingOps (snd (execute_nextCommand (Some w) registry s)) =
        (pendingOps s)(nextPromise s \<mapsto> (r, Next))"
    by (simp add: execute_nextCommand_def openBoxOrExecute_found [OF a] onNextCommand_def)
  show "pendingOps (snd (execute_prevCommand (Some w) registry s)) =
        (pendingOps s)(nextPromise s \<mapsto> (r, Previous))"
    by (simp add: execute_prevCommand_def openBoxOrExecute_found [OF a] onPrevCommand_def)
next
  assume g: "get_property (activeSearches s) (widget_id w) = None"
  show "execute_nextCommand (Some w) registry s =
        execute_startCommand (Some w) registry (emit (ReadDirectory (widget_id w)) s)"
    by (simp add: execute_nextCommand_def execute_startCommand_def openBoxOrExecute_undefined [OF g])
  show "execute_prevCommand (Some w) registry s =
        execute_startCommand (Some w) registry (emit (ReadDirectory (widget_id w)) s)"
    by (simp add: execute_prevCommand_def execute_startCommand_def openBoxOrExecute_undefined [OF g])
  show "pendingOps (snd (execute_startCommand (Some w) registry s)) = pendingOps s"
    by (simp add: execute_startCommand_def)
  show "pendingOps (snd (execute_nextCommand (Some w) registry s)) = pendingOps s"
    by (simp add: execute_nextCommand_def openBoxOrExecute_undefined [OF g])
  show "pendingOps (snd (execute_prevCommand (Some w) registry s)) = pendingOps s"
    by (simp add: execute_prevCommand_def openBoxOrExecute_undefined [OF g])
next
  assume g: "get_property (activeSearches s) (widget_id w) = Some InheritedMember"
  show "execute_startCommand (Some w) registry s =
        (Raised TypeError, emit (ReadDirectory (widget_id w)) (emit (ReadDirectory (widget_id w)) s))"
    by (simp add: execute_startCommand_def onStartCommand_inherited [OF g])
  show "execute_nextCommand (Some w) registry s =
        (Returned, emit (AsyncRejected TypeError) (emit (ReadDirectory (widget_id w)) s))"
    by (simp add: execute_nextCommand_def openBoxOrExecute_inherited [OF g] onNextCommand_def)
  show "execute_prevCommand (Some w) registry s =
        (Returned, emit (AsyncRejected TypeError) (emit (ReadDirectory (widget_id w)) s))"
    by (simp add: execute_prevCommand_def openBoxOrExecute_inherited [OF g] onPrevCommand_def)
next
  assume h: "activeSearches (run registry es) k1 = Some r1 \<and>
    activeSearches (run registry es) k2 = Some r2 \<and> k1 \<noteq> k2"
  then have a1: "activeSearches (run registry es) k1 = Some r1"
    and a2: "activeSearches (run registry es) k2 = Some r2" and n: "k1 \<noteq> k2" by simp_all
  show "r1 \<noteq> r2"
  proof
    assume "r1 = r2"
    with directory_invD2 [OF directory_inv_run a1] directory_invD2 [OF directory_inv_run a2]
    have "k1 = k2" by simp
    with n show False by simp
  qed
next
  assume h: "widget_id w1 = widget_id w2 \<and> activeSearches s (widget_id w1) = Some r"
  then have a1: "activeSearches s (widget_id w1) = Some r"
    and a2: "activeSearches s (widget_id w2) = Some r" and e: "widget_id w1 = widget_id w2"
    by auto
  show "execute_startCommand (Some w1) registry s = execute_startCommand (Some w2) registry s"
    by (simp add: execute_startCommand_def onStartCommand_found [OF a1] onStartCommand_found [OF a2] e)
  show "execute_nextCommand (Some w1) registry s = execute_nextCommand (Some w2) registry s"
    by (simp add: execute_nextCommand_def openBoxOrExecute_found [OF a1] openBoxOrExecute_found [OF a2] e)
  show "execute_prevCommand (Some w1) registry s = execute_prevCommand (Some w2) registry s"
    by (simp add: execute_prevCommand_def openBoxOrExecute_found [OF a1] openBoxOrExecute_found [OF a2] e)
  show "get_property (activeSearches s) (widget_id w2) = Some (InstanceRef r)"
    using a2 by (simp add: get_property_Instance_iff)
next
  assume h: "widget_id w1 = widget_id w2 \<and> get_property (activeSearches s) (widget_id w1) = None \<and>
    getProviderForWidget registry w1 = Some p"
  then have g: "get_property (activeSearches s) (widget_id w1) = None"
    and q: "getProviderForWidget registry w1 = Some p" and e: "widget_id w1 = widget_id w2"
    by auto
  note c = onStartCommand_created [OF g q]
  show "get_property (activeSearches (snd (execute_startCommand (Some w1) registry s))) (widget_id w2) =
        Some (InstanceRef (nextRef s))"
    by (simp add: execute_startCommand_def c get_property_Instance_iff e [symmetric])
  show "heap (snd (execute_startCommand (Some w1) registry s)) (nextRef s) =
        Some (created_instance w1 p)"
    by (simp add: execute_startCommand_def c)
next
  assume n: "widget_id w \<noteq> k"
  then show "activeSearches (snd (execute_startCommand (Some w) registry s)) k = activeSearches s k"
    by (simp add: execute_startCommand_def activeSearches_onStartCommand)
  from n show "activeSearches (snd (execute_nextCommand (Some w) registry s)) k = activeSearches s k"
    by (simp add: execute_nextCommand_def activeSearches_openBoxOrExecute)
  from n show "activeSearches (snd (execute_prevCommand (Some w) registry s)) k = activeSearches s k"
    by (simp add: execute_prevCommand_def activeSearches_openBoxOrExecute)
next
  assume "heap (run registry es) r = Some i \<and> widget_id (widget i) \<noteq> k"
  then show "activeSearches (dispose_searchWidget r (run registry es)) k =
      activeSearches (run registry es) k"
    by (auto simp: activeSearches_dispose_reachable)
next
  assume h: "heap (run registry es) r = Some i \<and> \<not> searchWidget_isDisposed i"
  then show "activeSearches (run registry es) (widget_id (widget i)) = Some r"
    by (simp add: stored_instance(2))
  from h show "activeSearches (dispose_searchWidget r (run registry es)) (widget_id (widget i)) = None"
    by (simp add: activeSearches_dispose_reachable)
qed

text \<open>
  With searches open on the notebook (instance 0) and on the editor (instance 1):
  next-match on the editor makes an operation of instance 1 pending and next-match on the
  notebook one of instance 0, through either of the two widget objects that carry the
  notebook's id; previous-match on the editor is pending for instance 1 as well. After
  activation next-match on the notebook makes nothing pending. A widget whose id is
  \<^verbatim>\<open>constructor\<close> finds the inherited member and touches no instance. A start-search on
  the notebook keeps the editor's entry, and disposing the notebook's overlay removes the
  notebook's entry and keeps the editor's.
\<close>

theorem directory_keyed_by_widget_id_witness:
  "activeSearches (run [GenericProvider]
      [StartCommand (Some notebook_widget), StartCommand (Some editor_widget)]) =
     [''notebook-1'' \<mapsto> 0, ''editor-2'' \<mapsto> 1] \<and>
   pendingOps (snd (execute_nextCommand (Some editor_widget) [GenericProvider]
     (run [GenericProvider] [StartCommand (Some notebook_widget), StartCommand (Some editor_widget)]))) =
     [0 \<mapsto> (1, Next)] \<and>
   pendingOps (snd (execute_prevCommand (Some editor_widget) [GenericProvider]
     (run [GenericProvider] [StartCommand (Some notebook_widget), StartCommand (Some editor_widget)]))) =
     [0 \<mapsto> (1, Previous)] \<and>
   pendingOps (snd (execute_nextCommand (Some notebook_widget) [GenericProvider]
     (run [GenericProvider] [StartCommand (Some notebook_widget), StartCommand (Some editor_widget)]))) =
     [0 \<mapsto> (0, Next)] \<and>
   pendingOps (snd (execute_nextCommand (Some notebook_widget_again) [GenericProvider]
     (run [GenericProvider] [StartCommand (Some notebook_widget), StartCommand (Some editor_widget)]))) =
     [0 \<mapsto> (0, Next)] \<and>
   (0::nat) \<noteq> 1 \<and>
   get_property (activeSearches initial_state) (widget_id notebook_widget) = None \<and>
   pendingOps (snd (execute_nextCommand (Some notebook_widget) [GenericProvider] initial_state)) =
     Map.empty \<and>
   get_property (activeSearches initial_state) (widget_id constructor_widget) = Some InheritedMember \<and>
   execute_nextCommand (Some constructor_widget) [GenericProvider] initial_state =
     (Returned, emit (AsyncRejected TypeError) (emit (ReadDirectory ''constructor'') initial_state)) \<and>
   notebook_widget \<noteq> notebook_widget_again \<and>
   widget_id notebook_widget = widget_id notebook_widget_again \<and>
   activeSearches searching_notebook (widget_id notebook_widget) = Some 0 \<and>
   execute_nextCommand (Some notebook_widget) [GenericProvider] searching_notebook =
     execute_nextCommand (Some notebook_widget_again) [GenericProvider] searching_notebook \<and>
   get_property
     (activeSearches (snd (execute_startCommand (Some notebook_widget) [GenericProvider] initial_state)))
     (widget_id notebook_widget_again) = Some (InstanceRef 0) \<and>
   activeSearches (snd (execute_startCommand (Some notebook_widget) [GenericProvider]
     (run [GenericProvider] [StartCommand (Some notebook_widget), StartCommand (Some editor_widget)])))
     ''editor-2'' = Some 1 \<and>
   heap (run [GenericProvider] [StartCommand (Some notebook_widget), StartCommand (Some editor_widget)]) 0 =
     Some (created_instance notebook_widget (new_provider GenericProvider)) \<and>
   activeSearches (dispose_searchWidget 0
     (run [GenericProvider] [StartCommand (Some notebook_widget), StartCommand (Some editor_widget)]))
     ''editor-2'' = Some 1 \<and>
   activeSearches (dispose_searchWidget 0
     (run [GenericProvider] [StartCommand (Some notebook_widget), StartCommand (Some editor_widget)]))
     ''notebook-1'' = None"
proof -
  let ?es = "[StartCommand (Some notebook_widget), StartCommand (Some editor_widget)]"
  let ?S = "run [GenericProvider] ?es"
  let ?i = "created_instance notebook_widget (new_provider GenericProvider)"
  note S = run_start_notebook_then_editor
  have d: "notebook_widget \<noteq> notebook_widget_again"
    by (simp add: notebook_widget_def notebook_widget_again_def)
  have h: "heap ?S 0 = Some ?i" "activeSearches ?S ''editor-2'' = Some 1"
    "activeSearches ?S ''notebook-1'' = Some 0"
    by (simp_all add: S)
  have i: "widget_id (widget ?i) = ''notebook-1''" "\<not> searchWidget_isDisposed ?i"
    by (simp_all add: created_instance_def)
  note g = get_property_initial_notebook
  have gc: "get_property (activeSearches initial_state) (widget_id constructor_widget) =
      Some InheritedMember"
    by (simp add: get_property_def constructor_widget_def Object_prototype_keys_def)
  have wc: "widget_id constructor_widget = ''constructor''"
    by (simp add: constructor_widget_def)
  note t = directory_keyed_by_widget_id [where registry = "[GenericProvider]" and es = ?es
      and p = "new_provider GenericProvider" and ?w1.0 = notebook_widget
      and ?w2.0 = notebook_widget_again and ?k1.0 = "''notebook-1''" and ?k2.0 = "''editor-2''"
      and ?r1.0 = 0 and ?r2.0 = 1 and i = ?i]
  note te = t [where s = ?S and w = editor_widget and r = 1 and k = "''notebook-1''"]
  note tn = t [where s = ?S and w = notebook_widget and r = 0 and k = "''editor-2''"]
  note ta = t [where s = ?S and w = notebook_widget_again and r = 0 and k = "''editor-2''"]
  note t0 = t [where s = initial_state and w = notebook_widget and r = 0 and k = "''editor-2''"]
  note tc = t [where s = initial_state and w = constructor_widget and r = 0 and k = "''editor-2''"]
  note t1 = t [where s = searching_notebook and w = notebook_widget and r = 0 and k = "''editor-2''"]
  have aE: "activeSearches ?S (widget_id editor_widget) = Some 1"
    and aN: "activeSearches ?S (widget_id notebook_widget) = Some 0"
    and aA: "activeSearches ?S (widget_id notebook_widget_again) = Some 0"
    by (simp_all add: S)
  have e1: "pendingOps (snd (execute_nextCommand (Some editor_widget) [GenericProvider] ?S)) =
      [0 \<mapsto> (1, Next)]"
    "pendingOps (snd (execute_prevCommand (Some editor_widget) [GenericProvider] ?S)) =
      [0 \<mapsto> (1, Previous)]"
    using te [THEN conjunct1, THEN mp, OF aE] by (simp_all add: S(3,4))
  have e2: "pendingOps (snd (execute_nextCommand (Some notebook_widget) [GenericProvider] ?S)) =
      [0 \<mapsto> (0, Next)]"
    using tn [THEN conjunct1, THEN mp, OF aN] by (simp add: S(3,4))
  have e3: "pendingOps (snd (execute_nextCommand (Some notebook_widget_again) [GenericProvider] ?S)) =
      [0 \<mapsto> (0, Next)]"
    using ta [THEN conjunct1, THEN mp, OF aA] by (simp add: S(3,4))
  have e4: "pendingOps (snd (execute_nextCommand (Some notebook_widget) [GenericProvider] initial_state)) =
      Map.empty"
    using t0 [THEN conjunct2, THEN conjunct1, THEN mp, OF g, THEN conjunct2, THEN conjunct2,
        THEN conjunct2, THEN conjunct1]
    by simp
  have e5: "execute_nextCommand (Some constructor_widget) [GenericProvider] initial_state =
     (Returned, emit (AsyncRejected TypeError) (emit (ReadDirectory ''constructor'') initial_state))"
    using tc [THEN conjunct2, THEN conjunct2, THEN conjunct1, THEN mp, OF gc] by (simp add: wc)
  have e6: "(0::nat) \<noteq> 1"
    using t [where s = ?S and w = notebook_widget and r = 0 and k = "''editor-2''",
        THEN conjunct2, THEN conjunct2, THEN conjunct2, THEN conjunct1] h(2,3)
    by simp
  have q: "widget_id notebook_widget = widget_id notebook_widget_again \<and>
      activeSearches searching_notebook (widget_id notebook_widget) = Some 0"
    by simp
  have c1: "execute_nextCommand (Some notebook_widget) [GenericProvider] searching_notebook =
     execute_nextCommand (Some notebook_widget_again) [GenericProvider] searching_notebook"
    using t1 [THEN conjunct2, THEN conjunct2, THEN conjunct2, THEN conjunct2, THEN conjunct1,
        THEN mp, OF q]
    by blast
  have q2: "widget_id notebook_widget = widget_id notebook_widget_again \<and>
      get_property (activeSearches initial_state) (widget_id notebook_widget) = None \<and>
      getProviderForWidget [GenericProvider] notebook_widget = Some (new_provider GenericProvider)"
    using g by simp
  have c2: "get_property
     (activeSearches (snd (execute_startCommand (Some notebook_widget) [GenericProvider] initial_state)))
     (widget_id notebook_widget_again) = Some (InstanceRef 0)"
    using t0 [THEN conjunct2, THEN conjunct2, THEN conjunct2, THEN conjunct2, THEN conjunct2,
        THEN conjunct1, THEN mp, OF q2]
    by simp
  have q3: "widget_id notebook_widget \<noteq> ''editor-2''" by simp
  have c3: "activeSearches (snd (execute_startCommand (Some notebook_widget) [GenericProvider] ?S))
     ''editor-2'' = Some 1"
    using tn [THEN conjunct2, THEN conjunct2, THEN conjunct2, THEN conjunct2, THEN conjunct2,
        THEN conjunct2, THEN conjunct1, THEN mp, OF q3] h(2)
    by simp
  have q4: "heap ?S 0 = Some ?i \<and> widget_id (widget ?i) \<noteq> ''editor-2''"
    using h(1) i(1) by simp
  have c4: "activeSearches (dispose_searchWidget 0 ?S) ''editor-2'' = Some 1"
    using tn [THEN conjunct2, THEN conjunct2, THEN conjunct2, THEN conjunct2, THEN conjunct2,
        THEN conjunct2, THEN conjunct2, THEN conjunct1, THEN mp, OF q4] h(2)
    by simp
  have q5: "heap ?S 0 = Some ?i \<and> \<not> searchWidget_isDisposed ?i"
    using h(1) i(2) by simp
  have c5: "activeSearches (dispose_searchWidget 0 ?S) ''notebook-1'' = None"
    using tn [THEN conjunct2, THEN conjunct2, THEN conjunct2, THEN conjunct2, THEN conjunct2,
        THEN conjunct2, THEN conjunct2, THEN conjunct2, THEN mp, OF q5] i(1)
    by simp
  from d g gc h(1) e1 e2 e3 e4 e5 e6 c1 c2 c3 c4 c5 show ?thesis
    by (simp add: S(1))
qed

section \<open>Matches\<close>



end
